theory Spec2Isabelle
  imports Complex_Main "HOL-Library.Sublist" "HOL-Library.Log_Nat"
begin

section \<open>Python values and exceptions\<close>

text \<open>
  The script \<^verbatim>\<open>purge.py\<close> moves untyped Python objects around: the dictionary of
  parsed command line arguments and the objects decoded from the registry's JSON answer.
  They are modelled by one datatype. A \<^verbatim>\<open>dict\<close> is an association list read with
  \<open>map_of\<close> (JSON object keys are strings). Strings are byte strings; on ASCII text they
  agree with Python's \<^verbatim>\<open>str\<close>. JSON numbers with a fraction or an exponent (Python
  \<^verbatim>\<open>float\<close> objects) are not part of the datatype.
\<close>

datatype pyval =
    PNone
  | PBool bool
  | PInt int
  | PStr string
  | PList "pyval list"
  | PDict "(string \<times> pyval) list"

text \<open>
  Nothing in the script catches an exception, so a raised exception ends the process.
  \<open>SystemExit\<close> carries the exit status, \<open>HTTPError\<close> the HTTP status code.
\<close>

datatype py_error =
    SystemExit nat
  | KeyError string
  | TypeError
  | ValueError
  | AttributeError
  | HTTPError nat
  | URLError
  | JSONDecodeError

subsection \<open>Truth value and \<^verbatim>\<open>str()\<close>\<close>

fun truthy :: "pyval \<Rightarrow> bool" where
  "truthy PNone = False"
| "truthy (PBool b) = b"
| "truthy (PInt n) = (n \<noteq> 0)"
| "truthy (PStr s) = (s \<noteq> [])"
| "truthy (PList xs) = (xs \<noteq> [])"
| "truthy (PDict kvs) = (kvs \<noteq> [])"

definition digit_char :: "nat \<Rightarrow> char" where
  "digit_char d = ''0123456789'' ! d"

fun show_nat :: "nat \<Rightarrow> string" where
  "show_nat n = (if n < 10 then [digit_char n] else show_nat (n div 10) @ [digit_char (n mod 10)])"

declare show_nat.simps [simp del]

definition show_int :: "int \<Rightarrow> string" where
  "show_int i = (if i < 0 then CHR ''-'' # show_nat (nat (- i)) else show_nat (nat i))"

definition hex_char :: "nat \<Rightarrow> char" where
  "hex_char d = ''0123456789abcdef'' ! d"

definition backslash :: char where
  "backslash = CHR 0x5C"

text \<open>
  \<^verbatim>\<open>repr\<close> of a string: single quotes unless the string holds a single quote and no
  double quote; the quote and the backslash are escaped, and so are control characters.
\<close>

definition repr_char :: "char \<Rightarrow> char \<Rightarrow> string" where
  "repr_char q c =
     (if c = q \<or> c = backslash then [backslash, c]
      else if c = CHR 0x09 then [backslash, CHR ''t'']
      else if c = CHR 0x0A then [backslash, CHR ''n'']
      else if c = CHR 0x0D then [backslash, CHR ''r'']
      else if (of_char c :: nat) < 32 \<or> c = CHR 0x7F
        then [backslash, CHR ''x'', hex_char (of_char c div 16), hex_char (of_char c mod 16)]
      else [c])"

definition repr_str :: "string \<Rightarrow> string" where
  "repr_str s =
     (let q = (if CHR 0x27 \<in> set s \<and> CHR 0x22 \<notin> set s then CHR 0x22 else CHR 0x27)
      in q # concat (map (repr_char q) s) @ [q])"

fun join :: "string \<Rightarrow> string list \<Rightarrow> string" where
  "join sep [] = []"
| "join sep [x] = x"
| "join sep (x # y # ys) = x @ sep @ join sep (y # ys)"

fun py_repr :: "pyval \<Rightarrow> string" where
  "py_repr PNone = ''None''"
| "py_repr (PBool b) = (if b then ''True'' else ''False'')"
| "py_repr (PInt n) = show_int n"
| "py_repr (PStr s) = repr_str s"
| "py_repr (PList xs) = ''['' @ join '', '' (map py_repr xs) @ '']''"
| "py_repr (PDict kvs) =
     ''{'' @ join '', '' (map (\<lambda>kv. repr_str (fst kv) @ '': '' @ py_repr (snd kv)) kvs) @ ''}''"

text \<open>What an f-string replacement field \<^verbatim>\<open>{x}\<close> produces: \<^verbatim>\<open>str(x)\<close>.\<close>

definition py_str :: "pyval \<Rightarrow> string" where
  "py_str v = (case v of PStr s \<Rightarrow> s | _ \<Rightarrow> py_repr v)"

section \<open>The dataclasses and \<^verbatim>\<open>deserialize\<close>\<close>

text \<open>
  Dataclass fields are annotated but not checked at run time: each field holds whatever
  object \<^verbatim>\<open>deserialize\<close> found (the field \<^verbatim>\<open>size\<close> is written \<open>size'\<close>). A dataclass is described by its declared field names
  and its generated \<^verbatim>\<open>__init__\<close>, which is called with keyword arguments and raises
  \<^verbatim>\<open>TypeError\<close> unless exactly the declared fields are given.
\<close>

record Config =
  repository :: pyval
  age :: pyval
  purge :: pyval

record Tag =
  name :: pyval
  reversion :: pyval
  start_ts :: pyval
  manifest_digest :: pyval
  is_manifest_list :: pyval
  size' :: pyval
  last_modified :: pyval

record 'a dataclass =
  dc_fields :: "string list"
  dc_init :: "(string \<times> pyval) list \<Rightarrow> 'a"

definition kwargs_ok :: "string list \<Rightarrow> (string \<times> pyval) list \<Rightarrow> bool" where
  "kwargs_ok fs kvp = (list_all (\<lambda>f. f \<in> set (map fst kvp)) fs \<and> list_all (\<lambda>k. k \<in> set fs) (map fst kvp))"

definition kw :: "(string \<times> pyval) list \<Rightarrow> string \<Rightarrow> pyval" where
  "kw kvp k = (case map_of kvp k of Some v \<Rightarrow> v | None \<Rightarrow> PNone)"

definition call_init :: "'a dataclass \<Rightarrow> (string \<times> pyval) list \<Rightarrow> py_error + 'a" where
  "call_init value_type kvp =
     (if kwargs_ok (dc_fields value_type) kvp then Inr (dc_init value_type kvp) else Inl TypeError)"

definition Config_class :: "Config dataclass" where
  "Config_class =
     \<lparr>dc_fields = [''repository'', ''age'', ''purge''],
      dc_init = (\<lambda>kvp. \<lparr>repository = kw kvp ''repository'', age = kw kvp ''age'',
                     purge = kw kvp ''purge''\<rparr>)\<rparr>"

definition Tag_class :: "Tag dataclass" where
  "Tag_class =
     \<lparr>dc_fields = [''name'', ''reversion'', ''start_ts'', ''manifest_digest'',
                ''is_manifest_list'', ''size'', ''last_modified''],
      dc_init = (\<lambda>kvp. \<lparr>name = kw kvp ''name'', reversion = kw kvp ''reversion'',
                     start_ts = kw kvp ''start_ts'', manifest_digest = kw kvp ''manifest_digest'',
                     is_manifest_list = kw kvp ''is_manifest_list'', size' = kw kvp ''size'',
                     last_modified = kw kvp ''last_modified''\<rparr>)\<rparr>"

text \<open>\<^verbatim>\<open>value.get(key)\<close>: \<^verbatim>\<open>None\<close> for a missing key; only a dict has the method.\<close>

definition dict_get :: "pyval \<Rightarrow> string \<Rightarrow> py_error + pyval" where
  "dict_get v k =
     (case v of
        PDict kvs \<Rightarrow> Inr (case map_of kvs k of Some x \<Rightarrow> x | None \<Rightarrow> PNone)
      | _ \<Rightarrow> Inl AttributeError)"

text \<open>The dict comprehension of \<^verbatim>\<open>deserialize\<close>, one declared field after the other.\<close>

fun collect_fields :: "pyval \<Rightarrow> string list \<Rightarrow> py_error + (string \<times> pyval) list" where
  "collect_fields v [] = Inr []"
| "collect_fields v (f # fs) =
     (case dict_get v f of
        Inl e \<Rightarrow> Inl e
      | Inr x \<Rightarrow> (case collect_fields v fs of Inl e \<Rightarrow> Inl e | Inr kvp \<Rightarrow> Inr ((f, x) # kvp)))"

definition deserialize :: "pyval \<Rightarrow> 'a dataclass \<Rightarrow> py_error + 'a" where
  "deserialize v value_type =
     (case collect_fields v (dc_fields value_type) of
        Inl e \<Rightarrow> Inl e
      | Inr kvp \<Rightarrow> call_init value_type kvp)"

text \<open>\<^verbatim>\<open>data['tags']\<close> and the iteration of a \<^verbatim>\<open>for\<close> clause over an object.\<close>

definition subscript :: "pyval \<Rightarrow> string \<Rightarrow> py_error + pyval" where
  "subscript v k =
     (case v of
        PDict kvs \<Rightarrow> (case map_of kvs k of Some x \<Rightarrow> Inr x | None \<Rightarrow> Inl (KeyError k))
      | _ \<Rightarrow> Inl TypeError)"

definition iterate :: "pyval \<Rightarrow> py_error + pyval list" where
  "iterate v =
     (case v of
        PList xs \<Rightarrow> Inr xs
      | PDict kvs \<Rightarrow> Inr (map (\<lambda>kv. PStr (fst kv)) kvs)
      | PStr s \<Rightarrow> Inr (map (\<lambda>c. PStr [c]) s)
      | _ \<Rightarrow> Inl TypeError)"

text \<open>The list comprehension \<^verbatim>\<open>[deserialize(value, Tag) for value in data['tags']]\<close>.\<close>

fun deserialize_each :: "pyval list \<Rightarrow> 'a dataclass \<Rightarrow> py_error + 'a list" where
  "deserialize_each [] value_type = Inr []"
| "deserialize_each (v # vs) value_type =
     (case deserialize v value_type of
        Inl e \<Rightarrow> Inl e
      | Inr x \<Rightarrow> (case deserialize_each vs value_type of Inl e \<Rightarrow> Inl e | Inr xs \<Rightarrow> Inr (x # xs)))"

section \<open>Time\<close>

text \<open>
  Both datetimes of the script are timezone-aware, and the difference of two aware
  datetimes is the difference of the instants they denote. An aware datetime is therefore
  modelled by its instant: the microseconds since 0001-01-01 00:00:00 UTC. For a datetime
  with UTC offset zero, as \<^verbatim>\<open>datetime.now(timezone.utc)\<close> returns it, the
  \<^verbatim>\<open>microsecond\<close> field is the instant modulo one second.
\<close>

type_synonym datetime = int

definition replace_microsecond_0 :: "datetime \<Rightarrow> datetime" where
  "replace_microsecond_0 t = t - t mod 1000000"

text \<open>A \<^verbatim>\<open>timedelta\<close> is normalised: seconds within a day, microseconds within a second.\<close>

record timedelta =
  days :: int
  seconds :: int
  microseconds :: int

definition timedelta_of_microseconds :: "int \<Rightarrow> timedelta" where
  "timedelta_of_microseconds us =
     \<lparr>days = us div 86400000000,
      seconds = us mod 86400000000 div 1000000,
      microseconds = us mod 1000000\<rparr>"

definition datetime_sub :: "datetime \<Rightarrow> datetime \<Rightarrow> timedelta" where
  "datetime_sub a b = timedelta_of_microseconds (a - b)"

definition to_microseconds :: "timedelta \<Rightarrow> int" where
  "to_microseconds td = (days td * 86400 + seconds td) * 1000000 + microseconds td"

subsection \<open>Floats\<close>

text \<open>
  \<^verbatim>\<open>timedelta.total_seconds()\<close> divides the microseconds by \<open>10^6\<close> with Python's true
  division of integers, whose result is the double nearest to the quotient (ties to the
  even significand). A double is modelled by the rational it denotes. \<open>binade x\<close> is the
  exponent \<open>e\<close> with \<open>2^e \<le> \<bar>x\<bar> < 2^(e+1)\<close>; doubles in that range are the multiples of
  \<open>2^(e-52)\<close>, and below \<open>2^(-1022)\<close> the multiples of \<open>2^(-1074)\<close>. Quotients beyond the
  largest double do not occur here: a timedelta spans less than \<open>10^9\<close> days.
\<close>

definition round_half_even :: "rat \<Rightarrow> int" where
  "round_half_even x =
     (let f = \<lfloor>x\<rfloor>; d = x - of_int f
      in if d < 1 / 2 then f else if 1 / 2 < d then f + 1 else if even f then f else f + 1)"

definition binade :: "rat \<Rightarrow> int" where
  "binade x =
     (let k = bitlen \<bar>fst (quotient_of x)\<bar> - bitlen (snd (quotient_of x))
      in if \<bar>x\<bar> < 2 powi k then k - 1 else k)"

definition round_double :: "rat \<Rightarrow> rat" where
  "round_double x =
     (if x = 0 then 0
      else let u = 2 powi (max (binade x) (- 1022) - 52)
           in of_int (round_half_even (x / u)) * u)"

definition total_seconds :: "timedelta \<Rightarrow> rat" where
  "total_seconds td = round_double (of_int (to_microseconds td) / 1000000)"

text \<open>\<^verbatim>\<open>int(x)\<close> of a float truncates towards zero.\<close>

definition int_of_float :: "rat \<Rightarrow> int" where
  "int_of_float x = (if 0 \<le> x then \<lfloor>x\<rfloor> else \<lceil>x\<rceil>)"

text \<open>
  \<^verbatim>\<open>x > v\<close> for a float \<open>x\<close>: Python compares a float with an \<^verbatim>\<open>int\<close> (or a
  \<^verbatim>\<open>bool\<close>, which is an \<^verbatim>\<open>int\<close>) by their exact values and raises \<^verbatim>\<open>TypeError\<close> for
  the other objects of \<^typ>\<open>pyval\<close>.
\<close>

definition float_gt :: "rat \<Rightarrow> pyval \<Rightarrow> py_error + bool" where
  "float_gt x v =
     (case v of
        PInt n \<Rightarrow> Inr (of_int n < x)
      | PBool b \<Rightarrow> Inr ((if b then 1 else 0) < x)
      | _ \<Rightarrow> Inl TypeError)"

subsection \<open>\<^verbatim>\<open>str(timedelta)\<close>\<close>

text \<open>\<^verbatim>\<open>'%0wd' % i\<close>: the sign, then zeros up to width \<open>w\<close>, then the digits.\<close>

definition zero_pad :: "nat \<Rightarrow> int \<Rightarrow> string" where
  "zero_pad w i =
     (let sign = (if i < 0 then ''-'' else []); ds = show_nat (nat \<bar>i\<bar>)
      in sign @ replicate (w - length sign - length ds) (CHR ''0'') @ ds)"

definition timedelta_str :: "timedelta \<Rightarrow> string" where
  "timedelta_str td =
     (let mm = seconds td div 60; ss = seconds td mod 60;
          hh = mm div 60; mm = mm mod 60;
          s = show_int hh @ '':'' @ zero_pad 2 mm @ '':'' @ zero_pad 2 ss;
          s = (if days td \<noteq> 0
               then show_int (days td) @ '' day'' @ (if \<bar>days td\<bar> \<noteq> 1 then ''s'' else [])
                    @ '', '' @ s
               else s)
      in if microseconds td \<noteq> 0 then s @ ''.'' @ zero_pad 6 (microseconds td) else s)"

subsection \<open>The properties of \<^verbatim>\<open>Tag\<close>\<close>

text \<open>
  \<^verbatim>\<open>datetime.strptime\<close> belongs to the standard library and is a parameter of the model:
  it takes the string and the format and returns the parsed aware datetime or raises.
  Called with an object that is not a string it raises \<^verbatim>\<open>TypeError\<close>.
\<close>

type_synonym strptime_fn = "string \<Rightarrow> string \<Rightarrow> py_error + datetime"

definition last_modified_format :: string where
  "last_modified_format = ''%a, %d %b %Y %H:%M:%S %z''"

definition last_modified_datetime :: "strptime_fn \<Rightarrow> Tag \<Rightarrow> py_error + datetime" where
  "last_modified_datetime strptime self =
     (case last_modified self of
        PStr s \<Rightarrow> strptime s last_modified_format
      | _ \<Rightarrow> Inl TypeError)"

text \<open>
  The property \<^verbatim>\<open>age\<close> reads the clock at every access; \<open>now\<close> is what
  \<^verbatim>\<open>datetime.now(timezone.utc)\<close> returns at this access. It is called \<open>Tag_age\<close>
  here, \<open>age\<close> being the field of \<open>Config\<close>.
\<close>

definition Tag_age :: "strptime_fn \<Rightarrow> datetime \<Rightarrow> Tag \<Rightarrow> py_error + timedelta" where
  "Tag_age strptime now self =
     (case last_modified_datetime strptime self of
        Inl e \<Rightarrow> Inl e
      | Inr d \<Rightarrow> Inr (datetime_sub (replace_microsecond_0 now) d))"

section \<open>The command line\<close>

text \<open>
  \<^verbatim>\<open>int(s)\<close> of a string, as \<^verbatim>\<open>argparse\<close> applies it to the \<^verbatim>\<open>age\<close> argument:
  surrounding whitespace (space, tab, line feed, vertical tab, form feed, carriage return)
  is dropped, then come an optional sign and decimal digits, where single underscores may
  stand between digits. \<open>None\<close> stands for \<^verbatim>\<open>ValueError\<close>.
  CPython's limit on the number of digits is not modelled.
\<close>

definition is_space :: "char \<Rightarrow> bool" where
  "is_space c = (c \<in> set [CHR 0x09, CHR 0x0A, CHR 0x0B, CHR 0x0C, CHR 0x0D, CHR 0x20])"

definition strip :: "string \<Rightarrow> string" where
  "strip s = rev (dropWhile is_space (rev (dropWhile is_space s)))"

definition is_digit :: "char \<Rightarrow> bool" where
  "is_digit c = ((of_char (CHR ''0'') :: nat) \<le> of_char c \<and> (of_char c :: nat) \<le> of_char (CHR ''9''))"

definition digit_val :: "char \<Rightarrow> nat" where
  "digit_val c = of_char c - of_char (CHR ''0'')"

fun more_digits :: "nat \<Rightarrow> string \<Rightarrow> nat option" where
  "more_digits acc [] = Some acc"
| "more_digits acc [c] = (if is_digit c then Some (acc * 10 + digit_val c) else None)"
| "more_digits acc (c # d # cs) =
     (if is_digit c then more_digits (acc * 10 + digit_val c) (d # cs)
      else if c = CHR ''_'' \<and> is_digit d then more_digits (acc * 10 + digit_val d) cs
      else None)"

definition digits :: "string \<Rightarrow> nat option" where
  "digits s = (case s of [] \<Rightarrow> None | c # cs \<Rightarrow> if is_digit c then more_digits (digit_val c) cs else None)"

definition py_int :: "string \<Rightarrow> int option" where
  "py_int s =
     (case strip s of
        [] \<Rightarrow> None
      | c # cs \<Rightarrow>
          if c = CHR ''-'' then map_option (\<lambda>n. - int n) (digits cs)
          else if c = CHR ''+'' then map_option int (digits cs)
          else map_option int (digits (c # cs)))"

text \<open>
  The parser declares two positionals, \<^verbatim>\<open>repository\<close> and \<^verbatim>\<open>age\<close> (converted by
  \<^verbatim>\<open>int\<close>), and the flag \<^verbatim>\<open>--purge\<close>. The command line is modelled as
  \<^verbatim>\<open>argparse\<close> classifies its words: a positional string, the flag, or a word it does not
  recognise. Every error of \<^verbatim>\<open>parse_args\<close> prints a usage message on the error stream
  and exits with status 2; the result is \<^verbatim>\<open>args.__dict__\<close>. The built-in \<^verbatim>\<open>--help\<close>
  is not modelled.
\<close>

datatype cli_arg = Positional string | Purge_flag | Unrecognized string

fun positionals :: "cli_arg list \<Rightarrow> string list" where
  "positionals [] = []"
| "positionals (Positional s # as) = s # positionals as"
| "positionals (_ # as) = positionals as"

fun is_Unrecognized :: "cli_arg \<Rightarrow> bool" where
  "is_Unrecognized (Unrecognized _) = True"
| "is_Unrecognized _ = False"

definition parse_args :: "cli_arg list \<Rightarrow> py_error + pyval" where
  "parse_args args =
     (case positionals args of
        [repo, a] \<Rightarrow>
          (case py_int a of
             None \<Rightarrow> Inl (SystemExit 2)
           | Some n \<Rightarrow>
               if list_ex is_Unrecognized args then Inl (SystemExit 2)
               else Inr (PDict [(''repository'', PStr repo), (''age'', PInt n),
                                (''purge'', PBool (Purge_flag \<in> set args))]))
      | _ \<Rightarrow> Inl (SystemExit 2))"

section \<open>The world and \<^verbatim>\<open>main\<close>\<close>

text \<open>
  What the process observes and does. \<open>urlopen w rs r\<close> is the outcome of
  \<^verbatim>\<open>urllib.request.urlopen\<close> for the request \<open>r\<close> after the requests \<open>rs\<close> have been
  issued: a response, whose body \<^verbatim>\<open>json.load\<close> decodes or not, or a raised exception
  (\<^verbatim>\<open>HTTPError\<close> for a status outside 2xx, \<^verbatim>\<open>URLError\<close> for a network failure).
  \<open>clock w n\<close> is the \<open>n\<close>-th reading of \<^verbatim>\<open>datetime.now(timezone.utc)\<close>. The trace lists
  the calls of \<^verbatim>\<open>print\<close>, each with the text it writes, and of \<^verbatim>\<open>urlopen\<close>, in order.
\<close>

record request =
  http_method :: string
  url :: string
  headers :: "(string \<times> string) list"

datatype body = Malformed | Json pyval

datatype urlopen_result = Response body | Raises py_error

datatype event = Print string | Urlopen request

record world =
  argv :: "cli_arg list"
  environ :: "string \<Rightarrow> string option"
  urlopen :: "request list \<Rightarrow> request \<Rightarrow> urlopen_result"
  clock :: "nat \<Rightarrow> datetime"

fun requests :: "event list \<Rightarrow> request list" where
  "requests [] = []"
| "requests (Urlopen r # es) = r # requests es"
| "requests (Print _ # es) = requests es"

fun stdout :: "event list \<Rightarrow> string" where
  "stdout [] = []"
| "stdout (Print s # es) = s @ stdout es"
| "stdout (Urlopen _ # es) = stdout es"

definition json_load :: "body \<Rightarrow> py_error + pyval" where
  "json_load b = (case b of Malformed \<Rightarrow> Inl JSONDecodeError | Json v \<Rightarrow> Inr v)"

definition newline :: string where
  "newline = [CHR 0x0A]"

text \<open>
  Line 38, \<^verbatim>\<open>[tag for tag in tags if tag.age.total_seconds() > config.age]\<close>: one
  access to \<^verbatim>\<open>age\<close>, hence one reading of the clock, for every tag; \<open>n\<close> counts the
  readings made so far.
\<close>

fun expired_tags ::
  "strptime_fn \<Rightarrow> (nat \<Rightarrow> datetime) \<Rightarrow> Config \<Rightarrow> nat \<Rightarrow> Tag list \<Rightarrow> py_error + Tag list" where
  "expired_tags strptime clk config n [] = Inr []"
| "expired_tags strptime clk config n (tag # tags) =
     (case Tag_age strptime (clk n) tag of
        Inl e \<Rightarrow> Inl e
      | Inr a \<Rightarrow>
          (case float_gt (total_seconds a) (age config) of
             Inl e \<Rightarrow> Inl e
           | Inr b \<Rightarrow>
               (case expired_tags strptime clk config (Suc n) tags of
                  Inl e \<Rightarrow> Inl e
                | Inr rest \<Rightarrow> Inr (if b then tag # rest else rest))))"

text \<open>
  The text of the f-string of line 41. It accesses \<^verbatim>\<open>tag.age\<close> twice, so it reads the
  clock twice: \<open>a1\<close> is the age printed as a number, \<open>a2\<close> the age printed in brackets.
\<close>

definition report_line :: "Config \<Rightarrow> Tag \<Rightarrow> timedelta \<Rightarrow> timedelta \<Rightarrow> string" where
  "report_line config tag a1 a2 =
     py_str (repository config) @ '':'' @ py_str (name tag) @ ''  ''
       @ show_int (int_of_float (total_seconds a1)) @ ''  ['' @ timedelta_str a2 @ '']''"

definition delete_request :: "string \<Rightarrow> (string \<times> string) list \<Rightarrow> Tag \<Rightarrow> request" where
  "delete_request endpoint hdrs tag =
     \<lparr>http_method = ''DELETE'', url = endpoint @ py_str (name tag), headers = hdrs\<rparr>"

text \<open>The loop of lines 40 to 46; \<open>tr\<close> is the trace so far, \<open>n\<close> the clock readings so far.\<close>

fun report ::
  "strptime_fn \<Rightarrow> world \<Rightarrow> Config \<Rightarrow> string \<Rightarrow> (string \<times> string) list \<Rightarrow> nat \<Rightarrow> event list
     \<Rightarrow> Tag list \<Rightarrow> event list \<times> py_error option" where
  "report strptime w config endpoint hdrs n tr [] = (tr, None)"
| "report strptime w config endpoint hdrs n tr (tag # tags) =
     (case Tag_age strptime (clock w n) tag of
        Inl e \<Rightarrow> (tr, Some e)
      | Inr a1 \<Rightarrow>
          (case Tag_age strptime (clock w (Suc n)) tag of
             Inl e \<Rightarrow> (tr, Some e)
           | Inr a2 \<Rightarrow>
               (let tr1 = tr @ [Print (report_line config tag a1 a2
                                        @ (if truthy (purge config) then ''  '' else newline))]
                in if truthy (purge config)
                   then (let req = delete_request endpoint hdrs tag
                         in case urlopen w (requests tr1) req of
                              Raises e \<Rightarrow> (tr1 @ [Urlopen req], Some e)
                            | Response _ \<Rightarrow>
                                report strptime w config endpoint hdrs (Suc (Suc n))
                                  (tr1 @ [Urlopen req, Print (''deleted'' @ newline)]) tags)
                   else report strptime w config endpoint hdrs (Suc (Suc n)) tr1 tags)))"

definition endpoint_of :: "Config \<Rightarrow> string" where
  "endpoint_of config = ''https://quay.io/api/v1/repository/'' @ py_str (repository config) @ ''/tag/''"

definition list_request :: "string \<Rightarrow> (string \<times> string) list \<Rightarrow> request" where
  "list_request endpoint hdrs =
     \<lparr>http_method = ''GET'', url = endpoint @ ''?onlyActiveTags=true'', headers = hdrs\<rparr>"

text \<open>Lines 35 and 37: decode the answer and build the tags.\<close>

definition load_tags :: "body \<Rightarrow> py_error + Tag list" where
  "load_tags b =
     (case json_load b of
        Inl e \<Rightarrow> Inl e
      | Inr data \<Rightarrow>
          (case subscript data ''tags'' of
             Inl e \<Rightarrow> Inl e
           | Inr v \<Rightarrow> (case iterate v of Inl e \<Rightarrow> Inl e | Inr vs \<Rightarrow> deserialize_each vs Tag_class)))"

text \<open>Lines 25 to 28: the arguments, the token, the configuration.\<close>

definition configure :: "world \<Rightarrow> py_error + Config \<times> string" where
  "configure w =
     (case parse_args (argv w) of
        Inl e \<Rightarrow> Inl e
      | Inr args \<Rightarrow>
          (case environ w ''QUAY_TOKEN'' of
             None \<Rightarrow> Inl (KeyError ''QUAY_TOKEN'')
           | Some token \<Rightarrow>
               (case deserialize args Config_class of
                  Inl e \<Rightarrow> Inl e
                | Inr config \<Rightarrow> Inr (config, token))))"

definition auth_headers :: "string \<Rightarrow> (string \<times> string) list" where
  "auth_headers token = [(''Authorization'', ''Bearer '' @ token)]"

text \<open>Lines 34 to 37: the answer to the list request, which is the first request.\<close>

definition list_tags :: "world \<Rightarrow> request \<Rightarrow> py_error + Tag list" where
  "list_tags w req =
     (case urlopen w [] req of
        Raises e \<Rightarrow> Inl e
      | Response b \<Rightarrow> load_tags b)"

text \<open>
  \<^verbatim>\<open>main\<close> returns the trace of the run and the exception that ended it, if any.
  The filter of line 38 reads the clock once for every tag, so the loop starts at reading
  \<open>length tags\<close>.
\<close>

definition main :: "strptime_fn \<Rightarrow> world \<Rightarrow> event list \<times> py_error option" where
  "main strptime w =
     (case configure w of
        Inl e \<Rightarrow> ([], Some e)
      | Inr (config, token) \<Rightarrow>
          (let hdrs = auth_headers token;
               endpoint = endpoint_of config;
               req = list_request endpoint hdrs
           in case list_tags w req of
                Inl e \<Rightarrow> ([Urlopen req], Some e)
              | Inr tags \<Rightarrow>
                  (case expired_tags strptime (clock w) config 0 tags of
                     Inl e \<Rightarrow> ([Urlopen req], Some e)
                   | Inr expired \<Rightarrow>
                       report strptime w config endpoint hdrs (length tags)
                         [Urlopen req] expired)))"

text \<open>
  The serialisation the round trip of the specification speaks of; the script has no
  such function. A tag becomes the key-value record of its seven fields.
\<close>

definition Tag_asdict :: "Tag \<Rightarrow> pyval" where
  "Tag_asdict t =
     PDict [(''name'', name t), (''reversion'', reversion t), (''start_ts'', start_ts t),
            (''manifest_digest'', manifest_digest t), (''is_manifest_list'', is_manifest_list t),
            (''size'', size' t), (''last_modified'', last_modified t)]"

text \<open>
  The range of the instants of aware datetimes: the years run from 1 to 9999, which are
  3652059 days, and a UTC offset lies strictly between minus and plus one day.
\<close>

definition datetime_in_range :: "datetime \<Rightarrow> bool" where
  "datetime_in_range t = (- 86400000000 < t \<and> t < 3652060 * 86400000000)"

text \<open>
  The report lines a loop over \<open>tags\<close> is expected to print when it starts at clock reading
  \<open>n\<close> and every \<^verbatim>\<open>last_modified\<close> parses: two readings for each tag.
\<close>

fun expected_lines ::
  "strptime_fn \<Rightarrow> (nat \<Rightarrow> datetime) \<Rightarrow> Config \<Rightarrow> nat \<Rightarrow> Tag list \<Rightarrow> string list" where
  "expected_lines strptime clk config n [] = []"
| "expected_lines strptime clk config n (tag # tags) =
     report_line config tag (projr (Tag_age strptime (clk n) tag))
       (projr (Tag_age strptime (clk (Suc n)) tag))
     # expected_lines strptime clk config (Suc (Suc n)) tags"


section \<open>Example data\<close>

text \<open>
  A parser that knows five dates, for the concrete runs below. The first date is 732312
  days, 15 hours, 4 minutes and 5 seconds after the start of year 1; the next three lie 10
  seconds before it, half an hour after it, and one hour and 10 seconds after it. The
  last one has the local time of the first and a UTC offset of half a second, which the
  directive \<^verbatim>\<open>%z\<close> accepts in the form \<^verbatim>\<open>+HHMMSS.ffffff\<close>: its instant lies half a
  second before the first date.
\<close>

definition example_instant :: datetime where
  "example_instant = (((732312 * 24 + 15) * 60 + 4) * 60 + 5) * 1000000"

definition example_dates :: "(string \<times> datetime) list" where
  "example_dates =
     [(''Mon, 02 Jan 2006 15:04:05 +0000'', example_instant),
      (''Mon, 02 Jan 2006 15:03:55 +0000'', example_instant - 10000000),
      (''Mon, 02 Jan 2006 16:34:05 +0100'', example_instant + 1800000000),
      (''Mon, 02 Jan 2006 16:04:15 +0000'', example_instant + 3610000000),
      (''Mon, 02 Jan 2006 15:04:05 +000000.5'', example_instant - 500000)]"

definition example_strptime :: strptime_fn where
  "example_strptime s fmt =
     (if fmt = ''%a, %d %b %Y %H:%M:%S %z''
      then (case map_of example_dates s of Some t \<Rightarrow> Inr t | None \<Rightarrow> Inl ValueError)
      else Inl ValueError)"

definition example_tag :: "string \<Rightarrow> string \<Rightarrow> pyval" where
  "example_tag n lm =
     PDict [(''name'', PStr n), (''reversion'', PBool False), (''start_ts'', PInt 1136214245),
            (''manifest_digest'', PStr ''sha256:0f''), (''is_manifest_list'', PBool False),
            (''size'', PInt 2048), (''last_modified'', PStr lm), (''expiration'', PNone)]"

text \<open>
  The worlds of the concrete runs: the registry lists four tags, last modified 10 seconds
  before the first example date (\<^verbatim>\<open>v1\<close>), half an hour after it (\<^verbatim>\<open>v2\<close>), at
  it (\<^verbatim>\<open>v3\<close>) and one hour and 10 seconds after it (\<^verbatim>\<open>v4\<close>). The clock stands
  one hour and a quarter of a second after the first example date, or starts there and
  advances by one second at every reading. A \<^verbatim>\<open>DELETE\<close> fails with status 500 for
  the URLs listed in \<open>failing\<close> and is answered with an empty body otherwise.
\<close>

definition example_now :: datetime where
  "example_now = example_instant + 3600250000"

definition example_Tag :: "string \<Rightarrow> string \<Rightarrow> Tag" where
  "example_Tag n lm =
     \<lparr>name = PStr n, reversion = PBool False, start_ts = PInt 1136214245,
      manifest_digest = PStr ''sha256:0f'', is_manifest_list = PBool False,
      size' = PInt 2048, last_modified = PStr lm\<rparr>"

definition example_listing :: pyval where
  "example_listing =
     PDict [(''tags'', PList [example_tag ''v1'' ''Mon, 02 Jan 2006 15:03:55 +0000'',
                              example_tag ''v2'' ''Mon, 02 Jan 2006 16:34:05 +0100'',
                              example_tag ''v3'' ''Mon, 02 Jan 2006 15:04:05 +0000'',
                              example_tag ''v4'' ''Mon, 02 Jan 2006 16:04:15 +0000'']),
            (''page'', PInt 1), (''has_additional'', PBool False)]"

definition example_tags :: "Tag list" where
  "example_tags =
     [example_Tag ''v1'' ''Mon, 02 Jan 2006 15:03:55 +0000'',
      example_Tag ''v2'' ''Mon, 02 Jan 2006 16:34:05 +0100'',
      example_Tag ''v3'' ''Mon, 02 Jan 2006 15:04:05 +0000'',
      example_Tag ''v4'' ''Mon, 02 Jan 2006 16:04:15 +0000'']"

definition example_world ::
  "cli_arg list \<Rightarrow> (nat \<Rightarrow> datetime) \<Rightarrow> urlopen_result \<Rightarrow> string list \<Rightarrow> world" where
  "example_world args clk listing failing =
     \<lparr>argv = args,
      environ = [''QUAY_TOKEN'' \<mapsto> ''secret''],
      urlopen = (\<lambda>rs r. if http_method r = ''GET'' then listing
                        else if url r \<in> set failing then Raises (HTTPError 500)
                        else Response Malformed),
      clock = clk\<rparr>"

definition example_config :: "int \<Rightarrow> bool \<Rightarrow> Config" where
  "example_config c p = \<lparr>repository = PStr ''myrepo'', age = PInt c, purge = PBool p\<rparr>"

definition example_get :: request where
  "example_get =
     \<lparr>http_method = ''GET'',
      url = ''https://quay.io/api/v1/repository/myrepo/tag/?onlyActiveTags=true'',
      headers = [(''Authorization'', ''Bearer secret'')]\<rparr>"

definition example_delete :: "string \<Rightarrow> request" where
  "example_delete n =
     \<lparr>http_method = ''DELETE'',
      url = ''https://quay.io/api/v1/repository/myrepo/tag/'' @ n,
      headers = [(''Authorization'', ''Bearer secret'')]\<rparr>"

definition ticking :: "nat \<Rightarrow> datetime" where
  "ticking n = example_now + 1000000 * int n"


section \<open>Deserialisation\<close>

lemma collect_fields_dict:
  "collect_fields (PDict d) fs =
     Inr (map (\<lambda>f. (f, case map_of d f of None \<Rightarrow> PNone | Some v \<Rightarrow> v)) fs)"
  by (induction fs) (simp_all add: dict_get_def)

lemma collect_fields_not_dict:
  assumes "\<And>d. v \<noteq> PDict d" and "fs \<noteq> []"
  shows "collect_fields v fs = Inl AttributeError"
  using assms by (cases fs; cases v) (auto simp: dict_get_def)

lemma kwargs_ok_collected: "kwargs_ok fs (map (\<lambda>f. (f, g f)) fs)"
  by (simp add: kwargs_ok_def list_all_iff comp_def)

lemma deserialize_dict:
  "deserialize (PDict d) T =
     Inr (dc_init T (map (\<lambda>f. (f, case map_of d f of None \<Rightarrow> PNone | Some v \<Rightarrow> v)) (dc_fields T)))"
  by (simp add: deserialize_def collect_fields_dict call_init_def kwargs_ok_collected)

lemma deserialize_Tag:
  "deserialize (PDict d) Tag_class =
     Inr \<lparr>name = kw d ''name'', reversion = kw d ''reversion'', start_ts = kw d ''start_ts'',
          manifest_digest = kw d ''manifest_digest'', is_manifest_list = kw d ''is_manifest_list'',
          size' = kw d ''size'', last_modified = kw d ''last_modified''\<rparr>"
  by (simp add: deserialize_dict Tag_class_def kw_def)

lemma deserialize_Config:
  "deserialize (PDict d) Config_class =
     Inr \<lparr>repository = kw d ''repository'', age = kw d ''age'', purge = kw d ''purge''\<rparr>"
  by (simp add: deserialize_dict Config_class_def kw_def)

text \<open>
  Claim C4, as the specification words it, promises an empty string or a zero for a field
  missing from the input record. The record that has only a \<^verbatim>\<open>name\<close> shows otherwise:
  every other field of the tag is \<^verbatim>\<open>None\<close>, which is neither.
\<close>

theorem deserialize_missing_field_counterexample:
  "deserialize (PDict [(''name'', PStr ''v1'')]) Tag_class =
     Inr \<lparr>name = PStr ''v1'', reversion = PNone, start_ts = PNone, manifest_digest = PNone,
          is_manifest_list = PNone, size' = PNone, last_modified = PNone\<rparr>
   \<and> deserialize (PDict [(''name'', PStr ''v1'')]) Tag_class \<noteq>
     Inr \<lparr>name = PStr ''v1'', reversion = PBool False, start_ts = PInt 0,
          manifest_digest = PStr [], is_manifest_list = PBool False, size' = PInt 0,
          last_modified = PStr []\<rparr>"
  by (simp add: deserialize_Tag kw_def)

text \<open>
  Claim C4, amended: for every input record and every dataclass, \<^verbatim>\<open>deserialize\<close> does not
  raise; it calls the constructor with exactly the declared fields, each holding the value
  the record has under that name, or \<^verbatim>\<open>None\<close> when the record has no such key. Keys that
  are not declared fields are ignored: two records that agree on the declared fields
  deserialise to the same object.
\<close>

theorem deserialize_reads_declared_fields:
  "deserialize (PDict d) T =
     Inr (dc_init T (map (\<lambda>f. (f, case map_of d f of None \<Rightarrow> PNone | Some v \<Rightarrow> v)) (dc_fields T)))
   \<and> ((\<forall>f \<in> set (dc_fields T). map_of d' f = map_of d f)
        \<longrightarrow> deserialize (PDict d') T = deserialize (PDict d) T)"
proof (intro conjI impI)
  show "deserialize (PDict d) T =
     Inr (dc_init T (map (\<lambda>f. (f, case map_of d f of None \<Rightarrow> PNone | Some v \<Rightarrow> v)) (dc_fields T)))"
    by (rule deserialize_dict)
next
  assume same: "\<forall>f \<in> set (dc_fields T). map_of d' f = map_of d f"
  then have "map (\<lambda>f. (f, case map_of d' f of None \<Rightarrow> PNone | Some v \<Rightarrow> v)) (dc_fields T)
           = map (\<lambda>f. (f, case map_of d f of None \<Rightarrow> PNone | Some v \<Rightarrow> v)) (dc_fields T)"
    by (intro map_cong) simp_all
  then show "deserialize (PDict d') T = deserialize (PDict d) T"
    by (simp only: deserialize_dict)
qed

text \<open>
  At a record with two of the seven fields: the five missing ones are \<^verbatim>\<open>None\<close>, and a
  record that also has an undeclared key gives the same tag.
\<close>

theorem deserialize_reads_declared_fields_witness:
  "deserialize (PDict [(''size'', PInt 7), (''name'', PStr ''v1'')]) Tag_class =
     Inr \<lparr>name = PStr ''v1'', reversion = PNone, start_ts = PNone, manifest_digest = PNone,
          is_manifest_list = PNone, size' = PInt 7, last_modified = PNone\<rparr>
   \<and> deserialize (PDict [(''expiration'', PStr ''never''), (''name'', PStr ''v1''),
                         (''size'', PInt 7)]) Tag_class
     = deserialize (PDict [(''size'', PInt 7), (''name'', PStr ''v1'')]) Tag_class"
  using deserialize_reads_declared_fields
    [of "[(''size'', PInt 7), (''name'', PStr ''v1'')]" Tag_class
        "[(''expiration'', PStr ''never''), (''name'', PStr ''v1''), (''size'', PInt 7)]"]
  by (simp add: Tag_class_def kw_def)

section \<open>The age of a tag\<close>

lemma replace_microsecond_0_idem:
  "replace_microsecond_0 (t - t mod 1000000) = replace_microsecond_0 t"
  by (simp add: replace_microsecond_0_def minus_mod_eq_div_mult)

text \<open>
  Claim C9: a tag written out as the key-value record of its seven fields and read back
  by \<^verbatim>\<open>deserialize\<close> is a tag with the same \<^verbatim>\<open>name\<close>, the same \<^verbatim>\<open>last_modified\<close>
  and, at the same reading of the clock, the same \<^verbatim>\<open>age\<close>; and the age depends on that
  reading only through its truncation to whole seconds.
\<close>

theorem Tag_round_trip:
  "\<exists>t'. deserialize (Tag_asdict t) Tag_class = Inr t'
        \<and> name t' = name t \<and> last_modified t' = last_modified t
        \<and> Tag_age strptime now t' = Tag_age strptime now t
        \<and> Tag_age strptime now t' = Tag_age strptime (now - now mod 1000000) t'"
proof -
  have "deserialize (Tag_asdict t) Tag_class = Inr t"
    by (simp add: Tag_asdict_def deserialize_Tag kw_def)
  moreover have "Tag_age strptime now t = Tag_age strptime (now - now mod 1000000) t"
    by (simp add: Tag_age_def replace_microsecond_0_idem split: sum.splits)
  ultimately show ?thesis by simp
qed

section \<open>Floats that are whole numbers\<close>

lemma round_half_even_of_int: "round_half_even (of_int m) = m"
  by (simp add: round_half_even_def)

lemma round_half_even_nonneg: "0 \<le> x \<Longrightarrow> 0 \<le> round_half_even x"
  by (simp add: round_half_even_def Let_def)

lemma bitlen_positive:
  assumes "0 < x"
  shows "0 < bitlen x"
proof (rule ccontr)
  assume "\<not> 0 < bitlen x"
  then have "nat (bitlen x) = 0" by simp
  with bitlen_bounds [OF assms] have "x < 1" by simp
  with assms show False by simp
qed

lemma bitlen_one: "bitlen 1 = 1"
  using bitlen_twopow_add_eq [of 0 0] by simp

lemma binade_of_int:
  assumes "n \<noteq> 0"
  shows "binade (of_int n) = bitlen \<bar>n\<bar> - 1"
proof -
  have pos: "0 < \<bar>n\<bar>" using assms by simp
  have lo: "2 ^ nat (bitlen \<bar>n\<bar> - 1) \<le> \<bar>n\<bar>"
    using bitlen_bounds [OF pos] by simp
  have k0: "0 \<le> bitlen \<bar>n\<bar> - 1"
    using bitlen_positive [OF pos] by simp
  have "\<not> \<bar>(of_int n :: rat)\<bar> < 2 powi (bitlen \<bar>n\<bar> - 1)"
  proof -
    have "(2::rat) powi (bitlen \<bar>n\<bar> - 1) = of_int (2 ^ nat (bitlen \<bar>n\<bar> - 1))"
      using k0 by (simp add: power_int_def)
    also have "\<dots> \<le> of_int \<bar>n\<bar>"
      using lo by (simp only: of_int_le_iff)
    finally show ?thesis by simp
  qed
  then show ?thesis
    by (simp add: binade_def Let_def bitlen_one)
qed

lemma round_double_of_int:
  assumes "\<bar>n\<bar> < 2 ^ 53"
  shows "round_double (of_int n) = of_int n"
proof (cases "n = 0")
  case True
  then show ?thesis by (simp add: round_double_def)
next
  case False
  define k where "k = bitlen \<bar>n\<bar> - 1"
  have pos: "0 < \<bar>n\<bar>" using False by simp
  have k0: "0 \<le> k"
    using bitlen_positive [OF pos] by (simp add: k_def)
  have "bitlen \<bar>n\<bar> \<le> 53"
    using assms by (simp add: bitlen_le_iff_power)
  then have k52: "k \<le> 52" by (simp add: k_def)
  define m where "m = nat (52 - k)"
  have u: "(2::rat) powi (max k (- 1022) - 52) = 1 / 2 ^ m"
    using k0 k52 by (simp add: power_int_def m_def max_def inverse_eq_divide power_one_over nat_diff_distrib)
  have q: "(of_int n :: rat) / (1 / 2 ^ m) = of_int (n * 2 ^ m)"
    by simp
  have "round_double (of_int n) = of_int (round_half_even (of_int n / (1 / 2 ^ m))) * (1 / 2 ^ m)"
    using False u by (simp add: round_double_def binade_of_int k_def [symmetric] Let_def)
  also have "\<dots> = of_int (n * 2 ^ m) * (1 / 2 ^ m)"
    by (simp only: q round_half_even_of_int)
  also have "\<dots> = of_int n"
    by simp
  finally show ?thesis .
qed

lemma round_double_nonneg:
  assumes "0 \<le> x"
  shows "0 \<le> round_double x"
proof (cases "x = 0")
  case True
  then show ?thesis by (simp add: round_double_def)
next
  case False
  define u :: rat where "u = 2 powi (max (binade x) (- 1022) - 52)"
  have upos: "0 < u" by (simp add: u_def)
  then have "0 \<le> x / u" using assms by simp
  then have "0 \<le> round_half_even (x / u)" by (rule round_half_even_nonneg)
  then have "0 \<le> of_int (round_half_even (x / u)) * u"
    using upos by simp
  then show ?thesis
    using False by (simp add: round_double_def Let_def u_def)
qed

section \<open>Whole seconds\<close>

lemma to_microseconds_timedelta_of_microseconds:
  "to_microseconds (timedelta_of_microseconds us) = us"
proof -
  define q where "q = us div 86400000000"
  define r where "r = us mod 86400000000"
  have "us mod 1000000 = r mod 1000000"
    by (simp add: r_def mod_mod_cancel)
  then have low: "r div 1000000 * 1000000 + us mod 1000000 = r"
    by simp
  have high: "q * 86400000000 + r = us"
    by (simp add: q_def r_def)
  have "(q * 86400 + r div 1000000) * 1000000 + us mod 1000000
      = q * 86400000000 + (r div 1000000 * 1000000 + us mod 1000000)"
    by (simp add: algebra_simps)
  also have "\<dots> = us"
    by (simp only: low high)
  finally show ?thesis
    by (simp add: to_microseconds_def timedelta_of_microseconds_def q_def r_def)
qed

lemma timedelta_whole_seconds:
  assumes "us mod 1000000 = 0"
  shows "microseconds (timedelta_of_microseconds us) = 0"
    and "(days (timedelta_of_microseconds us) * 86400 + seconds (timedelta_of_microseconds us)) * 1000000 = us"
proof -
  show m: "microseconds (timedelta_of_microseconds us) = 0"
    using assms by (simp add: timedelta_of_microseconds_def)
  show "(days (timedelta_of_microseconds us) * 86400 + seconds (timedelta_of_microseconds us)) * 1000000 = us"
    using to_microseconds_timedelta_of_microseconds [of us] m
    by (simp add: to_microseconds_def)
qed

lemma int_of_float_of_int: "int_of_float (of_int n) = n"
  by (simp add: int_of_float_def)

text \<open>
  Claim C10, amended: when the instant parsed from \<^verbatim>\<open>last_modified\<close> is a whole number
  of seconds (the pattern has no directive for a fraction of a second in the local time,
  so this holds whenever the UTC offset has none), then at every reading of the clock the
  age is a whole number of seconds: its microseconds are zero, because the reading is
  truncated to microsecond zero before the subtraction. So \<^verbatim>\<open>total_seconds()\<close> is that integer as
  a float, exactly, and the printed \<^verbatim>\<open>int(tag.age.total_seconds())\<close> is the exact
  signed age in seconds: nothing is rounded or truncated away.
\<close>

theorem age_whole_seconds:
  assumes "last_modified_datetime strptime tag = Inr d"
    and "d mod 1000000 = 0"
    and "datetime_in_range d"
    and "datetime_in_range now"
  shows "\<exists>a. Tag_age strptime now tag = Inr a
           \<and> microseconds a = 0
           \<and> (days a * 86400 + seconds a) * 1000000 = (now - now mod 1000000) - d
           \<and> total_seconds a = of_int (days a * 86400 + seconds a)
           \<and> int_of_float (total_seconds a) = days a * 86400 + seconds a"
proof -
  define us where "us = (now - now mod 1000000) - d"
  define a where "a = timedelta_of_microseconds us"
  define S where "S = days a * 86400 + seconds a"
  have age: "Tag_age strptime now tag = Inr a"
    using assms(1) by (simp add: Tag_age_def datetime_sub_def replace_microsecond_0_def a_def us_def)
  have "(now - now mod 1000000) mod 1000000 = 0"
    by (simp add: minus_mod_eq_div_mult)
  with assms(2) have whole: "us mod 1000000 = 0"
    unfolding us_def by (metis mod_0 mod_diff_eq diff_zero)
  have micro: "microseconds a = 0" and secs: "S * 1000000 = us"
    using timedelta_whole_seconds [OF whole] by (simp_all add: a_def S_def)
  define r where "r = now mod 1000000"
  have "0 \<le> r" and "r < 1000000"
    by (simp_all add: r_def)
  with assms(3,4) have "\<bar>us\<bar> < 3652062 * 86400000000"
    unfolding datetime_in_range_def us_def r_def [symmetric] by linarith
  with secs have "\<bar>S\<bar> < 2 ^ 53"
    by simp
  then have rd: "round_double (of_int S) = of_int S"
    by (rule round_double_of_int)
  have "(of_int (to_microseconds a) :: rat) / 1000000 = of_int S"
    using secs micro by (simp add: to_microseconds_def S_def)
  then have total: "total_seconds a = of_int S"
    using rd by (simp add: total_seconds_def)
  have trunc: "int_of_float (total_seconds a) = S"
    by (simp only: total int_of_float_of_int)
  show ?thesis
    using age micro secs total trunc
    unfolding S_def us_def by blast
qed

text \<open>Ten seconds and 123 microseconds after the first example date, the age is 10.\<close>

theorem age_whole_seconds_witness:
  "Tag_age example_strptime (example_instant + 10000123)
     \<lparr>name = PStr ''v1'', reversion = PNone, start_ts = PNone, manifest_digest = PNone,
      is_manifest_list = PNone, size' = PNone, last_modified = PStr ''Mon, 02 Jan 2006 15:04:05 +0000''\<rparr>
     = Inr \<lparr>days = 0, seconds = 10, microseconds = 0\<rparr>
   \<and> total_seconds \<lparr>days = 0, seconds = 10, microseconds = 0\<rparr> = 10
   \<and> int_of_float (total_seconds \<lparr>days = 0, seconds = 10, microseconds = 0\<rparr>) = 10"
proof -
  let ?tag = "\<lparr>name = PStr ''v1'', reversion = PNone, start_ts = PNone, manifest_digest = PNone,
      is_manifest_list = PNone, size' = PNone, last_modified = PStr ''Mon, 02 Jan 2006 15:04:05 +0000''\<rparr>"
  have h1: "last_modified_datetime example_strptime ?tag = Inr example_instant"
    by (simp add: last_modified_datetime_def last_modified_format_def example_strptime_def example_dates_def)
  have h2: "example_instant mod 1000000 = 0"
    by (simp add: example_instant_def)
  have h3: "datetime_in_range example_instant"
    by (simp add: datetime_in_range_def example_instant_def)
  have h4: "datetime_in_range (example_instant + 10000123)"
    by (simp add: datetime_in_range_def example_instant_def)
  have age: "Tag_age example_strptime (example_instant + 10000123) ?tag
      = Inr \<lparr>days = 0, seconds = 10, microseconds = 0\<rparr>"
    by (simp add: Tag_age_def h1 datetime_sub_def replace_microsecond_0_def
        timedelta_of_microseconds_def example_instant_def)
  from age_whole_seconds [OF h1 h2 h3 h4] age
  have "total_seconds \<lparr>days = 0, seconds = 10, microseconds = 0\<rparr> = of_int (0 * 86400 + 10)"
    and "int_of_float (total_seconds \<lparr>days = 0, seconds = 10, microseconds = 0\<rparr>) = 0 * 86400 + 10"
    by auto
  with age show ?thesis
    by simp
qed

section \<open>Configuration and the filter\<close>

lemma requests_append: "requests (xs @ ys) = requests xs @ requests ys"
  by (induction xs rule: requests.induct) simp_all

lemma stdout_append: "stdout (xs @ ys) = stdout xs @ stdout ys"
  by (induction xs rule: stdout.induct) simp_all

lemma parse_args_Inr:
  assumes "parse_args args = Inr v"
  shows "\<exists>repo a n. positionals args = [repo, a] \<and> py_int a = Some n
           \<and> \<not> list_ex is_Unrecognized args
           \<and> v = PDict [(''repository'', PStr repo), (''age'', PInt n),
                        (''purge'', PBool (Purge_flag \<in> set args))]"
  using assms
  by (auto simp: parse_args_def split: list.splits option.splits if_splits)

lemma configure_Inr:
  assumes "configure w = Inr (config, token)"
  shows "\<exists>repo a n. positionals (argv w) = [repo, a] \<and> py_int a = Some n
           \<and> \<not> list_ex is_Unrecognized (argv w)
           \<and> environ w ''QUAY_TOKEN'' = Some token
           \<and> config = \<lparr>repository = PStr repo, age = PInt n,
                         purge = PBool (Purge_flag \<in> set (argv w))\<rparr>"
proof -
  from assms obtain v where v: "parse_args (argv w) = Inr v"
    by (auto simp: configure_def split: sum.splits)
  from parse_args_Inr [OF v] obtain repo a n where
    p: "positionals (argv w) = [repo, a]" "py_int a = Some n" "\<not> list_ex is_Unrecognized (argv w)"
    and vd: "v = PDict [(''repository'', PStr repo), (''age'', PInt n),
                        (''purge'', PBool (Purge_flag \<in> set (argv w)))]"
    by blast
  from assms v vd have "environ w ''QUAY_TOKEN'' = Some token"
    and "config = \<lparr>repository = PStr repo, age = PInt n, purge = PBool (Purge_flag \<in> set (argv w))\<rparr>"
    by (auto simp: configure_def deserialize_Config kw_def split: option.splits)
  with p show ?thesis by blast
qed

lemma configure_ok:
  assumes "positionals (argv w) = [repo, a]" and "py_int a = Some n"
    and "\<not> list_ex is_Unrecognized (argv w)" and "environ w ''QUAY_TOKEN'' = Some token"
  shows "configure w = Inr (\<lparr>repository = PStr repo, age = PInt n,
                              purge = PBool (Purge_flag \<in> set (argv w))\<rparr>, token)"
  using assms by (simp add: configure_def parse_args_def deserialize_Config kw_def)

lemma Tag_age_Inr:
  "last_modified_datetime strptime tag = Inr d \<Longrightarrow>
     Tag_age strptime now tag = Inr (datetime_sub (replace_microsecond_0 now) d)"
  by (simp add: Tag_age_def)

lemma Tag_age_Inr_parses:
  "Tag_age strptime now tag = Inr a \<Longrightarrow> \<exists>d. last_modified_datetime strptime tag = Inr d"
  by (auto simp: Tag_age_def split: sum.splits)

lemma expired_tags_parse:
  "expired_tags strptime clk config n tags = Inr ex \<Longrightarrow>
     \<forall>t \<in> set tags. \<exists>d. last_modified_datetime strptime t = Inr d"
proof (induction tags arbitrary: n ex)
  case Nil
  then show ?case by simp
next
  case (Cons tag tags)
  then show ?case
    by (auto split: sum.splits dest: Tag_age_Inr_parses)
qed

lemma expired_tags_subseq:
  "expired_tags strptime clk config n tags = Inr ex \<Longrightarrow> subseq ex tags"
proof (induction tags arbitrary: n ex)
  case Nil
  then show ?case by simp
next
  case (Cons tag tags)
  then show ?case
    by (auto split: sum.splits if_splits)
qed

lemma expired_tags_set:
  "expired_tags strptime clk config n tags = Inr ex \<Longrightarrow> set ex \<subseteq> set tags"
  by (drule expired_tags_subseq) (auto dest: list_emb_set)

lemma float_gt_PInt: "float_gt x (PInt c) = Inr (of_int c < x)"
  by (simp add: float_gt_def)

lemma expired_tags_filter:
  assumes "expired_tags strptime clk config n tags = Inr ex" and "age config = PInt c"
  shows "ex = map fst (filter (\<lambda>(t, i). \<exists>a. Tag_age strptime (clk i) t = Inr a \<and> of_int c < total_seconds a)
                        (zip tags [n..<n + length tags]))"
  using assms
proof (induction tags arbitrary: n ex)
  case Nil
  then show ?case by simp
next
  case (Cons tag tags)
  from Cons.prems obtain a rest where
    a: "Tag_age strptime (clk n) tag = Inr a"
    and rest: "expired_tags strptime clk config (Suc n) tags = Inr rest"
    and ex: "ex = (if of_int c < total_seconds a then tag # rest else rest)"
    by (auto simp: float_gt_PInt split: sum.splits)
  have up: "[n..<n + length (tag # tags)] = n # [Suc n..<Suc n + length tags]"
    using upt_conv_Cons [of n "n + length (tag # tags)"] by simp
  from Cons.IH [OF rest Cons.prems(2)] a ex show ?case
    unfolding up by simp
qed

lemma expired_tags_fixed_clock:
  assumes "expired_tags strptime (\<lambda>_. now) config n tags = Inr ex" and "age config = PInt c"
  shows "ex = filter (\<lambda>t. \<exists>a. Tag_age strptime now t = Inr a \<and> of_int c < total_seconds a) tags"
  using assms
proof (induction tags arbitrary: n ex)
  case Nil
  then show ?case by simp
next
  case (Cons tag tags)
  then show ?case
    by (auto simp: float_gt_PInt split: sum.splits)
qed

section \<open>The report loop\<close>

lemma expected_lines_length [simp]:
  "length (expected_lines strptime clk config n ex) = length ex"
  by (induction ex arbitrary: n) simp_all

lemma expected_lines_nth:
  "j < length ex \<Longrightarrow>
     expected_lines strptime clk config n ex ! j =
       report_line config (ex ! j) (projr (Tag_age strptime (clk (n + 2 * j)) (ex ! j)))
         (projr (Tag_age strptime (clk (Suc (n + 2 * j))) (ex ! j)))"
proof (induction ex arbitrary: n j)
  case Nil
  then show ?case by simp
next
  case (Cons tag ex)
  show ?case
  proof (cases j)
    case 0
    then show ?thesis by simp
  next
    case (Suc k)
    with Cons.prems have "k < length ex" by simp
    from Cons.IH [OF this, of "Suc (Suc n)"] Suc show ?thesis by simp
  qed
qed

lemma report_append:
  "report strptime w config ep h n tr (xs @ ys) =
     (case report strptime w config ep h n tr xs of
        (tr', None) \<Rightarrow> report strptime w config ep h (n + 2 * length xs) tr' ys
      | (tr', Some e) \<Rightarrow> (tr', Some e))"
proof (induction xs arbitrary: n tr)
  case Nil
  then show ?case by simp
next
  case (Cons tag xs)
  show ?case
    by (simp add: Cons.IH Let_def split: sum.splits urlopen_result.splits)
qed

lemma report_step_no_purge:
  assumes "\<not> truthy (purge config)"
    and "Tag_age strptime (clock w n) tag = Inr a1"
    and "Tag_age strptime (clock w (Suc n)) tag = Inr a2"
  shows "report strptime w config ep h n tr (tag # tags) =
           report strptime w config ep h (Suc (Suc n))
             (tr @ [Print (report_line config tag a1 a2 @ newline)]) tags"
  using assms by (simp add: Let_def)

lemma report_step_deleted:
  assumes "truthy (purge config)"
    and "Tag_age strptime (clock w n) tag = Inr a1"
    and "Tag_age strptime (clock w (Suc n)) tag = Inr a2"
    and "urlopen w (requests tr) (delete_request ep h tag) = Response b"
  shows "report strptime w config ep h n tr (tag # tags) =
           report strptime w config ep h (Suc (Suc n))
             (tr @ [Print (report_line config tag a1 a2 @ ''  ''),
                    Urlopen (delete_request ep h tag), Print (''deleted'' @ newline)]) tags"
  using assms by (simp add: Let_def requests_append)

lemma report_step_delete_fails:
  assumes "truthy (purge config)"
    and "Tag_age strptime (clock w n) tag = Inr a1"
    and "Tag_age strptime (clock w (Suc n)) tag = Inr a2"
    and "urlopen w (requests tr) (delete_request ep h tag) = Raises e"
  shows "report strptime w config ep h n tr (tag # tags) =
           (tr @ [Print (report_line config tag a1 a2 @ ''  ''),
                  Urlopen (delete_request ep h tag)], Some e)"
  using assms by (simp add: Let_def requests_append)

lemma report_no_purge:
  assumes "\<not> truthy (purge config)"
    and "\<forall>t \<in> set ex. \<exists>d. last_modified_datetime strptime t = Inr d"
  shows "report strptime w config ep h n tr ex =
           (tr @ map (\<lambda>l. Print (l @ newline)) (expected_lines strptime (clock w) config n ex), None)"
  using assms(2)
proof (induction ex arbitrary: n tr)
  case Nil
  then show ?case by simp
next
  case (Cons tag ex)
  then obtain d where d: "last_modified_datetime strptime tag = Inr d"
    by auto
  from Cons.prems have rest: "\<forall>t \<in> set ex. \<exists>d. last_modified_datetime strptime t = Inr d"
    by simp
  show ?case
    using assms(1) by (simp add: Let_def Tag_age_Inr [OF d] Cons.IH [OF rest])
qed

lemma report_requests_no_purge:
  assumes "\<not> truthy (purge config)"
  shows "requests (fst (report strptime w config ep h n tr ex)) = requests tr"
proof (induction ex arbitrary: n tr)
  case Nil
  then show ?case by simp
next
  case (Cons tag ex)
  show ?case
    using assms by (simp add: Let_def Cons.IH requests_append split: sum.splits)
qed

lemma report_no_purge_same_clock:
  assumes "\<not> truthy (purge config)" and "clock w' = clock w"
  shows "report strptime w' config ep h n tr ex = report strptime w config ep h n tr ex"
proof (induction ex arbitrary: n tr)
  case Nil
  then show ?case by simp
next
  case (Cons tag ex)
  show ?case
    using assms by (simp add: Let_def Cons.IH split: sum.splits)
qed

lemma report_ok_requests:
  assumes "truthy (purge config)"
    and "report strptime w config ep h n tr ex = (tr', None)"
  shows "requests tr' = requests tr @ map (delete_request ep h) ex"
  using assms(2)
proof (induction ex arbitrary: n tr)
  case Nil
  then show ?case by simp
next
  case (Cons tag ex)
  from Cons.prems assms(1) obtain a1 a2 where
    "report strptime w config ep h (Suc (Suc n))
       (tr @ [Print (report_line config tag a1 a2 @ ''  ''),
              Urlopen (delete_request ep h tag), Print (''deleted'' @ newline)]) ex = (tr', None)"
    by (auto simp: Let_def split: sum.splits urlopen_result.splits)
  from Cons.IH [OF this] show ?case
    by (simp add: requests_append)
qed

lemma report_ok_stdout:
  assumes "report strptime w config ep h n tr ex = (tr', None)"
  shows "stdout tr' = stdout tr @
           concat (map (\<lambda>l. l @ (if truthy (purge config) then ''  deleted'' @ newline else newline))
                     (expected_lines strptime (clock w) config n ex))"
  using assms
proof (induction ex arbitrary: n tr)
  case Nil
  then show ?case by simp
next
  case (Cons tag ex)
  from Cons.prems obtain a1 a2 where
    a1: "Tag_age strptime (clock w n) tag = Inr a1"
    and a2: "Tag_age strptime (clock w (Suc n)) tag = Inr a2"
    by (auto split: sum.splits)
  show ?case
  proof (cases "truthy (purge config)")
    case False
    from Cons.prems have "report strptime w config ep h (Suc (Suc n))
             (tr @ [Print (report_line config tag a1 a2 @ newline)]) ex = (tr', None)"
      by (simp only: report_step_no_purge [OF False a1 a2])
    from Cons.IH [OF this] False a1 a2 show ?thesis
      by (simp add: stdout_append)
  next
    case True
    from Cons.prems True a1 a2 obtain b where
      "urlopen w (requests tr) (delete_request ep h tag) = Response b"
      by (auto simp: Let_def requests_append split: urlopen_result.splits)
    from Cons.prems have "report strptime w config ep h (Suc (Suc n))
             (tr @ [Print (report_line config tag a1 a2 @ ''  ''),
                    Urlopen (delete_request ep h tag), Print (''deleted'' @ newline)]) ex = (tr', None)"
      by (simp only: report_step_deleted [OF True a1 a2 \<open>urlopen w (requests tr) (delete_request ep h tag) = Response b\<close>])
    from Cons.IH [OF this] True a1 a2 show ?thesis
      by (simp add: stdout_append)
  qed
qed

lemma main_eq_report:
  assumes "configure w = Inr (config, token)"
    and "list_tags w (list_request (endpoint_of config) (auth_headers token)) = Inr tags"
    and "expired_tags strptime (clock w) config 0 tags = Inr ex"
  shows "main strptime w =
           report strptime w config (endpoint_of config) (auth_headers token) (length tags)
             [Urlopen (list_request (endpoint_of config) (auth_headers token))] ex"
  using assms by (simp add: main_def Let_def)

lemma report_prints:
  assumes "Print s \<in> set (fst (report strptime w config ep h n tr ex))"
  shows "Print s \<in> set tr \<or> s = ''deleted'' @ newline
         \<or> (\<exists>t \<in> set ex. \<exists>a1 a2.
               s = report_line config t a1 a2 @ (if truthy (purge config) then ''  '' else newline))"
  using assms
proof (induction ex arbitrary: n tr)
  case Nil
  then show ?case by simp
next
  case (Cons tag ex)
  show ?case
  proof (cases "Tag_age strptime (clock w n) tag")
    case (Inl e)
    with Cons.prems show ?thesis by simp
  next
    case a1: (Inr a1)
    show ?thesis
    proof (cases "Tag_age strptime (clock w (Suc n)) tag")
      case (Inl e)
      with Cons.prems a1 show ?thesis by simp
    next
      case a2: (Inr a2)
      show ?thesis
      proof (cases "truthy (purge config)")
        case False
        from Cons.prems have "Print s \<in> set (fst (report strptime w config ep h (Suc (Suc n))
             (tr @ [Print (report_line config tag a1 a2 @ newline)]) ex))"
          by (simp only: report_step_no_purge [OF False a1 a2])
        from Cons.IH [OF this] False show ?thesis
          by auto
      next
        case True
        show ?thesis
        proof (cases "urlopen w (requests tr) (delete_request ep h tag)")
          case (Raises e)
          from Cons.prems True show ?thesis
            unfolding report_step_delete_fails [OF True a1 a2 Raises] by auto
        next
          case (Response b)
          from Cons.prems have "Print s \<in> set (fst (report strptime w config ep h (Suc (Suc n))
             (tr @ [Print (report_line config tag a1 a2 @ ''  ''),
                    Urlopen (delete_request ep h tag), Print (''deleted'' @ newline)]) ex))"
            by (simp only: report_step_deleted [OF True a1 a2 Response])
          from Cons.IH [OF this] True show ?thesis
            by auto
        qed
      qed
    qed
  qed
qed

text \<open>
  Claim C1: in a run that fetched \<open>tags\<close>, the configured age is an integer \<open>c\<close>, and
  \<^verbatim>\<open>expired_tags\<close> holds exactly the fetched tags whose age in seconds, at the reading of
  the clock made for that tag, is strictly greater than \<open>c\<close>. With one reference time
  \<open>now\<close> for all readings, a fetched tag is in \<^verbatim>\<open>expired_tags\<close> if and only if its age
  is strictly greater than \<open>c\<close>; a tag whose age equals \<open>c\<close> is left out. Every line the
  run prints is the report line of a tag of \<^verbatim>\<open>expired_tags\<close> (or the word
  \<^verbatim>\<open>deleted\<close>), so a tag that is left out produces no output line.
\<close>

theorem expired_iff_older_than_age:
  assumes "configure w = Inr (config, token)"
    and "list_tags w (list_request (endpoint_of config) (auth_headers token)) = Inr tags"
    and "expired_tags strptime (clock w) config 0 tags = Inr ex"
  shows "\<exists>c. age config = PInt c
           \<and> ex = map fst (filter (\<lambda>(t, i). \<exists>a. Tag_age strptime (clock w i) t = Inr a
                                                \<and> of_int c < total_seconds a)
                             (zip tags [0..<length tags]))
           \<and> ((\<forall>i. clock w i = now) \<longrightarrow>
                (\<forall>t \<in> set tags. (t \<in> set ex) =
                   (\<exists>a. Tag_age strptime now t = Inr a \<and> of_int c < total_seconds a)))
           \<and> (\<forall>s. Print s \<in> set (fst (main strptime w)) \<longrightarrow>
                  s = ''deleted'' @ newline
                  \<or> (\<exists>t \<in> set ex. \<exists>a1 a2.
                        s = report_line config t a1 a2
                            @ (if truthy (purge config) then ''  '' else newline)))"
proof -
  from configure_Inr [OF assms(1)] obtain c where c: "age config = PInt c"
    by auto
  have filt: "ex = map fst (filter (\<lambda>(t, i). \<exists>a. Tag_age strptime (clock w i) t = Inr a
                                                \<and> of_int c < total_seconds a)
                             (zip tags [0..<length tags]))"
    using expired_tags_filter [OF assms(3) c] by simp
  have fixed: "\<forall>t \<in> set tags. (t \<in> set ex) =
                   (\<exists>a. Tag_age strptime now t = Inr a \<and> of_int c < total_seconds a)"
    if "\<forall>i. clock w i = now"
  proof -
    from that have "clock w = (\<lambda>_. now)" by auto
    with assms(3) have "expired_tags strptime (\<lambda>_. now) config 0 tags = Inr ex" by simp
    from expired_tags_fixed_clock [OF this c] show ?thesis by auto
  qed
  have prints: "s = ''deleted'' @ newline
                  \<or> (\<exists>t \<in> set ex. \<exists>a1 a2.
                        s = report_line config t a1 a2
                            @ (if truthy (purge config) then ''  '' else newline))"
    if "Print s \<in> set (fst (main strptime w))" for s
    using that report_prints [of s strptime w config "endpoint_of config" "auth_headers token"
        "length tags" "[Urlopen (list_request (endpoint_of config) (auth_headers token))]" ex]
    unfolding main_eq_report [OF assms] by auto
  from c filt fixed prints show ?thesis
    by blast
qed

text \<open>
  Claim C2: \<^verbatim>\<open>expired_tags\<close> is a subsequence of the list the registry returned, in
  the registry's order, and a run that completes writes exactly one line for each expired
  tag, in that order: the output is the concatenation of the lines, the \<open>j\<close>-th line
  being the report line of the \<open>j\<close>-th expired tag.
\<close>

theorem expired_tags_in_order_one_line_each:
  assumes "configure w = Inr (config, token)"
    and "list_tags w (list_request (endpoint_of config) (auth_headers token)) = Inr tags"
    and "expired_tags strptime (clock w) config 0 tags = Inr ex"
    and "main strptime w = (tr, None)"
  shows "subseq ex tags
         \<and> (\<exists>lines. length lines = length ex
               \<and> stdout tr = concat (map (\<lambda>l. l @ (if truthy (purge config)
                                                     then ''  deleted'' @ newline else newline)) lines)
               \<and> (\<forall>j < length ex. \<exists>a1 a2.
                     Tag_age strptime (clock w (length tags + 2 * j)) (ex ! j) = Inr a1
                   \<and> Tag_age strptime (clock w (length tags + 2 * j + 1)) (ex ! j) = Inr a2
                   \<and> lines ! j = report_line config (ex ! j) a1 a2))"
proof -
  let ?lines = "expected_lines strptime (clock w) config (length tags) ex"
  have run: "report strptime w config (endpoint_of config) (auth_headers token) (length tags)
             [Urlopen (list_request (endpoint_of config) (auth_headers token))] ex = (tr, None)"
    using assms(4) by (simp only: main_eq_report [OF assms(1-3)])
  have out: "stdout tr = concat (map (\<lambda>l. l @ (if truthy (purge config)
                                                     then ''  deleted'' @ newline else newline)) ?lines)"
    using report_ok_stdout [OF run] by simp
  have each: "\<exists>a1 a2.
                     Tag_age strptime (clock w (length tags + 2 * j)) (ex ! j) = Inr a1
                   \<and> Tag_age strptime (clock w (length tags + 2 * j + 1)) (ex ! j) = Inr a2
                   \<and> ?lines ! j = report_line config (ex ! j) a1 a2"
    if "j < length ex" for j
  proof -
    from that have "ex ! j \<in> set tags"
      using expired_tags_set [OF assms(3)] by auto
    with expired_tags_parse [OF assms(3)] obtain d where
      d: "last_modified_datetime strptime (ex ! j) = Inr d"
      by auto
    show ?thesis
      using expected_lines_nth [OF that, of strptime "clock w" config "length tags"]
      by (simp add: Tag_age_Inr [OF d])
  qed
  from expired_tags_subseq [OF assms(3)] out each show ?thesis
    by (intro conjI exI [of _ ?lines]) simp_all
qed

section \<open>Negative ages, configuration errors, dry runs\<close>

lemma total_seconds_nonneg:
  assumes "0 \<le> us"
  shows "0 \<le> total_seconds (timedelta_of_microseconds us)"
proof -
  have "(0::rat) \<le> of_int us / 1000000"
    using assms by simp
  then show ?thesis
    by (simp add: total_seconds_def to_microseconds_timedelta_of_microseconds round_double_nonneg)
qed

lemma expired_tags_all:
  assumes "age config = PInt c" and "c < 0"
  shows "(\<forall>i < length tags. \<exists>d. last_modified_datetime strptime (tags ! i) = Inr d
                                  \<and> d \<le> replace_microsecond_0 (clk (n + i)))
         \<Longrightarrow> expired_tags strptime clk config n tags = Inr tags"
proof (induction tags arbitrary: n)
  case Nil
  then show ?case by simp
next
  case (Cons tag tags)
  from Cons.prems [rule_format, of 0] obtain d where
    d: "last_modified_datetime strptime tag = Inr d" and le: "d \<le> replace_microsecond_0 (clk n)"
    by auto
  have "0 \<le> total_seconds (datetime_sub (replace_microsecond_0 (clk n)) d)"
    unfolding datetime_sub_def using le by (intro total_seconds_nonneg) simp
  with assms(2) have sel: "of_int c < total_seconds (datetime_sub (replace_microsecond_0 (clk n)) d)"
  proof -
    from assms(2) have "(of_int c :: rat) < 0" by simp
    then show ?thesis
      using \<open>0 \<le> total_seconds (datetime_sub (replace_microsecond_0 (clk n)) d)\<close>
      by (rule less_le_trans)
  qed
  have "\<forall>i < length tags. \<exists>d. last_modified_datetime strptime (tags ! i) = Inr d
                                  \<and> d \<le> replace_microsecond_0 (clk (Suc n + i))"
  proof (intro allI impI)
    fix i assume "i < length tags"
    then have "Suc i < length (tag # tags)" by simp
    from Cons.prems [rule_format, OF this] show "\<exists>d. last_modified_datetime strptime (tags ! i) = Inr d
                                  \<and> d \<le> replace_microsecond_0 (clk (Suc n + i))"
      by simp
  qed
  from Cons.IH [OF this] sel show ?case
    by (simp add: Tag_age_Inr [OF d] assms(1) float_gt_PInt)
qed

lemma nonneg_age_selected:
  assumes "c < 0" and "last_modified_datetime strptime t = Inr d"
    and "d \<le> replace_microsecond_0 now"
  shows "\<exists>a. Tag_age strptime now t = Inr a \<and> of_int c < total_seconds a"
proof -
  have "0 \<le> total_seconds (datetime_sub (replace_microsecond_0 now) d)"
    unfolding datetime_sub_def using assms(3) by (intro total_seconds_nonneg) simp
  moreover from assms(1) have "(of_int c :: rat) < 0" by simp
  ultimately have "of_int c < total_seconds (datetime_sub (replace_microsecond_0 now) d)"
    by linarith
  with Tag_age_Inr [OF assms(2), of now] show ?thesis
    by blast
qed

text \<open>
  Claim C3, amended: an age argument that \<^verbatim>\<open>int\<close> accepts becomes \<^verbatim>\<open>config.age\<close> as
  it is, negative or not. With a negative \<^verbatim>\<open>config.age\<close> \<open>c\<close> the filter is still the
  strict comparison: \<^verbatim>\<open>expired_tags\<close> holds exactly the fetched tags whose age at their
  reading of the clock is greater than \<open>c\<close>. So every fetched tag whose age is not negative
  (its \<^verbatim>\<open>last_modified\<close> is not after the truncated reading of the clock) is selected,
  whatever the other tags of the list are; and, with one reference time for all readings,
  a tag whose \<^verbatim>\<open>last_modified\<close> lies after it, whose age is negative, is selected if and
  only if its age is greater than \<open>c\<close>. When no fetched tag has a negative age, all are
  selected.
\<close>

theorem negative_age_selects_nonnegative_ages:
  "(positionals (argv w) = [repo, a] \<and> py_int a = Some c \<and> \<not> list_ex is_Unrecognized (argv w)
      \<and> environ w ''QUAY_TOKEN'' = Some token
      \<longrightarrow> configure w = Inr (\<lparr>repository = PStr repo, age = PInt c,
                                 purge = PBool (Purge_flag \<in> set (argv w))\<rparr>, token))
   \<and> (expired_tags strptime clk config n tags = Inr ex \<and> age config = PInt c \<and> c < 0
      \<longrightarrow> ex = map fst (filter (\<lambda>(t, i). \<exists>a. Tag_age strptime (clk i) t = Inr a
                                                \<and> of_int c < total_seconds a)
                             (zip tags [n..<n + length tags]))
        \<and> (\<forall>i < length tags. \<forall>d.
               last_modified_datetime strptime (tags ! i) = Inr d
               \<and> d \<le> replace_microsecond_0 (clk (n + i))
               \<longrightarrow> (tags ! i, n + i)
                     \<in> set (filter (\<lambda>(t, i). \<exists>a. Tag_age strptime (clk i) t = Inr a
                                                  \<and> of_int c < total_seconds a)
                               (zip tags [n..<n + length tags])))
        \<and> ((\<forall>i. clk i = now) \<longrightarrow>
              (\<forall>t \<in> set tags. \<forall>d. last_modified_datetime strptime t = Inr d \<longrightarrow>
                 (d \<le> replace_microsecond_0 now \<longrightarrow> t \<in> set ex)
               \<and> (replace_microsecond_0 now < d \<longrightarrow>
                    (t \<in> set ex)
                    = (of_int c < total_seconds (datetime_sub (replace_microsecond_0 now) d))))))
   \<and> (age config = PInt c \<and> c < 0
      \<and> (\<forall>i < length tags. \<exists>d. last_modified_datetime strptime (tags ! i) = Inr d
                                  \<and> d \<le> replace_microsecond_0 (clk (n + i)))
      \<longrightarrow> expired_tags strptime clk config n tags = Inr tags)"
proof (intro conjI impI)
  assume "positionals (argv w) = [repo, a] \<and> py_int a = Some c \<and> \<not> list_ex is_Unrecognized (argv w)
      \<and> environ w ''QUAY_TOKEN'' = Some token"
  then show "configure w = Inr (\<lparr>repository = PStr repo, age = PInt c,
                                 purge = PBool (Purge_flag \<in> set (argv w))\<rparr>, token)"
    using configure_ok [of w repo a c token] by blast
next
  assume h: "age config = PInt c \<and> c < 0
      \<and> (\<forall>i < length tags. \<exists>d. last_modified_datetime strptime (tags ! i) = Inr d
                                  \<and> d \<le> replace_microsecond_0 (clk (n + i)))"
  then have "age config = PInt c" and "c < 0" by simp_all
  from expired_tags_all [OF this] h show "expired_tags strptime clk config n tags = Inr tags"
    by blast
next
  let ?P = "\<lambda>(t, i). \<exists>a. Tag_age strptime (clk i) t = Inr a \<and> of_int c < total_seconds a"
  assume h: "expired_tags strptime clk config n tags = Inr ex \<and> age config = PInt c \<and> c < 0"
  then have run: "expired_tags strptime clk config n tags = Inr ex"
    and c: "age config = PInt c" and neg: "c < 0"
    by simp_all
  show "ex = map fst (filter ?P (zip tags [n..<n + length tags]))"
    by (rule expired_tags_filter [OF run c])
  show "\<forall>i < length tags. \<forall>d.
               last_modified_datetime strptime (tags ! i) = Inr d
               \<and> d \<le> replace_microsecond_0 (clk (n + i))
               \<longrightarrow> (tags ! i, n + i) \<in> set (filter ?P (zip tags [n..<n + length tags]))"
  proof (intro allI impI)
    fix i d
    assume i: "i < length tags"
      and d: "last_modified_datetime strptime (tags ! i) = Inr d
               \<and> d \<le> replace_microsecond_0 (clk (n + i))"
    from i have "zip tags [n..<n + length tags] ! i = (tags ! i, n + i)"
      by simp
    moreover from i have "i < length (zip tags [n..<n + length tags])"
      by simp
    ultimately have "(tags ! i, n + i) \<in> set (zip tags [n..<n + length tags])"
      by (metis nth_mem)
    moreover from d nonneg_age_selected [OF neg, of strptime "tags ! i" d "clk (n + i)"]
    have "?P (tags ! i, n + i)"
      by simp
    ultimately show "(tags ! i, n + i) \<in> set (filter ?P (zip tags [n..<n + length tags]))"
      by simp
  qed
  show "\<forall>t \<in> set tags. \<forall>d. last_modified_datetime strptime t = Inr d \<longrightarrow>
                 (d \<le> replace_microsecond_0 now \<longrightarrow> t \<in> set ex)
               \<and> (replace_microsecond_0 now < d \<longrightarrow>
                    (t \<in> set ex)
                    = (of_int c < total_seconds (datetime_sub (replace_microsecond_0 now) d)))"
    if fixed: "\<forall>i. clk i = now"
  proof (intro ballI allI impI)
    fix t d
    assume t: "t \<in> set tags" and d: "last_modified_datetime strptime t = Inr d"
    from fixed have "clk = (\<lambda>_. now)" by auto
    with run have "expired_tags strptime (\<lambda>_. now) config n tags = Inr ex" by simp
    from expired_tags_fixed_clock [OF this c] t
    have mem: "(t \<in> set ex) = (\<exists>a. Tag_age strptime now t = Inr a \<and> of_int c < total_seconds a)"
      by auto
    have age: "Tag_age strptime now t = Inr (datetime_sub (replace_microsecond_0 now) d)"
      by (rule Tag_age_Inr [OF d])
    show "(d \<le> replace_microsecond_0 now \<longrightarrow> t \<in> set ex)
               \<and> (replace_microsecond_0 now < d \<longrightarrow>
                    (t \<in> set ex)
                    = (of_int c < total_seconds (datetime_sub (replace_microsecond_0 now) d)))"
      using mem age nonneg_age_selected [OF neg d, of now] by auto
  qed
qed

lemma configure_Inl:
  "configure w = Inl e \<Longrightarrow> main strptime w = ([], Some e)"
  by (simp add: main_def)

lemma parse_args_missing:
  "length (positionals args) < 2 \<Longrightarrow> parse_args args = Inl (SystemExit 2)"
  by (auto simp: parse_args_def split: list.splits)

text \<open>
  Claim C7: with fewer than two positional arguments (\<^verbatim>\<open>repository\<close> or \<^verbatim>\<open>age\<close>
  missing), or with an \<^verbatim>\<open>age\<close> that \<^verbatim>\<open>int\<close> rejects, the run ends with the usage
  error of \<^verbatim>\<open>argparse\<close> (exit status 2); with the arguments parsed and
  \<^verbatim>\<open>QUAY_TOKEN\<close> unset it ends with \<^verbatim>\<open>KeyError\<close>. In every case of a failed
  configuration the trace is empty: no request has been issued.
\<close>

theorem configuration_errors_before_network:
  "(length (positionals (argv w)) < 2 \<longrightarrow> main strptime w = ([], Some (SystemExit 2)))
   \<and> (\<forall>repo a. positionals (argv w) = [repo, a] \<and> py_int a = None
        \<longrightarrow> main strptime w = ([], Some (SystemExit 2)))
   \<and> (\<forall>args. parse_args (argv w) = Inr args \<and> environ w ''QUAY_TOKEN'' = None
        \<longrightarrow> main strptime w = ([], Some (KeyError ''QUAY_TOKEN'')))
   \<and> (\<forall>e. configure w = Inl e \<longrightarrow> main strptime w = ([], Some e))"
proof (intro conjI allI impI)
  assume "length (positionals (argv w)) < 2"
  then have "configure w = Inl (SystemExit 2)"
    by (simp add: configure_def parse_args_missing)
  then show "main strptime w = ([], Some (SystemExit 2))"
    by (rule configure_Inl)
next
  fix repo a
  assume "positionals (argv w) = [repo, a] \<and> py_int a = None"
  then have "configure w = Inl (SystemExit 2)"
    by (simp add: configure_def parse_args_def)
  then show "main strptime w = ([], Some (SystemExit 2))"
    by (rule configure_Inl)
next
  fix args
  assume "parse_args (argv w) = Inr args \<and> environ w ''QUAY_TOKEN'' = None"
  then have "configure w = Inl (KeyError ''QUAY_TOKEN'')"
    by (simp add: configure_def)
  then show "main strptime w = ([], Some (KeyError ''QUAY_TOKEN''))"
    by (rule configure_Inl)
next
  fix e
  assume "configure w = Inl e"
  then show "main strptime w = ([], Some e)"
    by (rule configure_Inl)
qed

lemma main_requests_no_purge:
  assumes "Purge_flag \<notin> set (argv w)"
  shows "requests (fst (main strptime w)) = []
         \<or> (\<exists>config token. configure w = Inr (config, token)
              \<and> requests (fst (main strptime w)) = [list_request (endpoint_of config) (auth_headers token)])"
proof (cases "configure w")
  case (Inl e)
  then show ?thesis by (simp add: configure_Inl)
next
  case (Inr p)
  obtain config token where p: "p = (config, token)" by (cases p)
  from configure_Inr [OF Inr [unfolded p]] assms have np: "\<not> truthy (purge config)"
    by auto
  let ?req = "list_request (endpoint_of config) (auth_headers token)"
  have "requests (fst (main strptime w)) = [?req]"
  proof (cases "list_tags w ?req")
    case (Inl e)
    with Inr p show ?thesis by (simp add: main_def Let_def)
  next
    case tags: (Inr tags)
    show ?thesis
    proof (cases "expired_tags strptime (clock w) config 0 tags")
      case (Inl e)
      with Inr p tags show ?thesis by (simp add: main_def Let_def)
    next
      case ex: (Inr ex)
      show ?thesis
        unfolding main_eq_report [OF Inr [unfolded p] tags ex]
        by (simp add: report_requests_no_purge [OF np])
    qed
  qed
  with Inr p show ?thesis by blast
qed

text \<open>
  Claim C8: without \<^verbatim>\<open>--purge\<close> the run issues at most one request, the \<^verbatim>\<open>GET\<close>
  of the list, and no \<^verbatim>\<open>DELETE\<close>; and a second run with the same arguments and token,
  the same answer to the list request and the same readings of the clock has the same
  trace and the same outcome, whatever else differs between the two worlds.
\<close>

theorem dry_run_is_pure_and_repeatable:
  assumes "Purge_flag \<notin> set (argv w)"
  shows "(\<forall>r \<in> set (requests (fst (main strptime w))). http_method r = ''GET'')
         \<and> length (requests (fst (main strptime w))) \<le> 1
         \<and> (argv w' = argv w \<and> environ w' ''QUAY_TOKEN'' = environ w ''QUAY_TOKEN''
              \<and> clock w' = clock w \<and> urlopen w' [] = urlopen w []
            \<longrightarrow> main strptime w' = main strptime w)"
proof (intro conjI impI)
  show "\<forall>r \<in> set (requests (fst (main strptime w))). http_method r = ''GET''"
    using main_requests_no_purge [OF assms, of strptime] by (auto simp: list_request_def)
  show "length (requests (fst (main strptime w))) \<le> 1"
    using main_requests_no_purge [OF assms, of strptime] by auto
next
  assume same: "argv w' = argv w \<and> environ w' ''QUAY_TOKEN'' = environ w ''QUAY_TOKEN''
              \<and> clock w' = clock w \<and> urlopen w' [] = urlopen w []"
  then have cfg: "configure w' = configure w"
    by (auto simp: configure_def split: sum.splits option.splits)
  show "main strptime w' = main strptime w"
  proof (cases "configure w")
    case (Inl e)
    with cfg show ?thesis by (simp add: main_def)
  next
    case (Inr p)
    obtain config token where p: "p = (config, token)" by (cases p)
    from configure_Inr [OF Inr [unfolded p]] assms have np: "\<not> truthy (purge config)"
      by auto
    have lst: "list_tags w' r = list_tags w r" for r
      using same by (simp add: list_tags_def)
    from same have clk: "clock w' = clock w" by simp
    let ?req = "list_request (endpoint_of config) (auth_headers token)"
    from Inr p cfg have cfg': "configure w' = Inr (config, token)" by simp
    show ?thesis
    proof (cases "list_tags w ?req")
      case (Inl e)
      with Inr p cfg' lst [of ?req] show ?thesis by (simp add: main_def Let_def)
    next
      case tags: (Inr tags)
      with lst [of ?req] have tags': "list_tags w' ?req = Inr tags" by simp
      show ?thesis
      proof (cases "expired_tags strptime (clock w) config 0 tags")
        case (Inl e)
        with Inr p cfg' tags tags' clk show ?thesis by (simp add: main_def Let_def)
      next
        case ex: (Inr ex)
        from ex clk have ex': "expired_tags strptime (clock w') config 0 tags = Inr ex" by simp
        show ?thesis
          unfolding main_eq_report [OF Inr [unfolded p] tags ex] main_eq_report [OF cfg' tags' ex']
          by (rule report_no_purge_same_clock [OF np clk])
      qed
    qed
  qed
qed

section \<open>Report lines, deletions and failures\<close>

lemma report_all_deleted:
  assumes "truthy (purge config)"
  shows "(\<forall>t \<in> set pre. \<exists>d. last_modified_datetime strptime t = Inr d) \<Longrightarrow>
         (\<forall>k < length pre. \<exists>b. urlopen w (requests tr @ map (delete_request ep h) (take k pre))
                                   (delete_request ep h (pre ! k)) = Response b) \<Longrightarrow>
         \<exists>tr'. report strptime w config ep h n tr pre = (tr', None)"
proof (induction pre arbitrary: n tr)
  case Nil
  then show ?case by simp
next
  case (Cons tag pre)
  from Cons.prems(1) obtain d where d: "last_modified_datetime strptime tag = Inr d"
    by auto
  from Cons.prems(2) [rule_format, of 0] obtain b where
    b: "urlopen w (requests tr) (delete_request ep h tag) = Response b"
    by auto
  let ?tr2 = "tr @ [Print (report_line config tag
                     (datetime_sub (replace_microsecond_0 (clock w n)) d)
                     (datetime_sub (replace_microsecond_0 (clock w (Suc n))) d) @ ''  ''),
                    Urlopen (delete_request ep h tag), Print (''deleted'' @ newline)]"
  have step: "report strptime w config ep h n tr (tag # pre) =
                report strptime w config ep h (Suc (Suc n)) ?tr2 pre"
    by (rule report_step_deleted [OF assms Tag_age_Inr [OF d] Tag_age_Inr [OF d] b])
  have rest: "\<forall>k < length pre. \<exists>b. urlopen w (requests ?tr2 @ map (delete_request ep h) (take k pre))
                                   (delete_request ep h (pre ! k)) = Response b"
  proof (intro allI impI)
    fix k assume "k < length pre"
    then have "Suc k < length (tag # pre)" by simp
    from Cons.prems(2) [rule_format, OF this]
    show "\<exists>b. urlopen w (requests ?tr2 @ map (delete_request ep h) (take k pre))
                                   (delete_request ep h (pre ! k)) = Response b"
      by (simp add: requests_append)
  qed
  from Cons.prems(1) have "\<forall>t \<in> set pre. \<exists>d. last_modified_datetime strptime t = Inr d"
    by simp
  from Cons.IH [OF this rest] step show ?case
    by simp
qed

text \<open>
  Claim C5: when the loop reaches an expired tag (the tags \<open>pre\<close> before it were
  reported, and deleted if asked to), its report line is
  \<^verbatim>\<open>{repository}:{name}  {age in whole seconds}  [{age as a duration}]\<close>. Without
  \<^verbatim>\<open>--purge\<close> the line is printed with a newline, no request has been issued beyond the
  list request, and the loop goes on. With \<^verbatim>\<open>--purge\<close> the line is printed with two
  spaces and no newline, then one \<^verbatim>\<open>DELETE\<close> request for the tag's endpoint is issued;
  \<^verbatim>\<open>deleted\<close> and a newline are printed only when that request succeeds, and when it
  raises the run ends there with neither.
\<close>

theorem report_line_then_delete:
  assumes "configure w = Inr (config, token)"
    and "list_tags w (list_request (endpoint_of config) (auth_headers token)) = Inr tags"
    and "expired_tags strptime (clock w) config 0 tags = Inr (pre @ tag # post)"
    and "report strptime w config (endpoint_of config) (auth_headers token) (length tags)
           [Urlopen (list_request (endpoint_of config) (auth_headers token))] pre = (tr', None)"
  shows "\<exists>a1 a2.
           Tag_age strptime (clock w (length tags + 2 * length pre)) tag = Inr a1
         \<and> Tag_age strptime (clock w (length tags + 2 * length pre + 1)) tag = Inr a2
         \<and> (let line = py_str (repository config) @ '':'' @ py_str (name tag) @ ''  ''
                         @ show_int (int_of_float (total_seconds a1))
                         @ ''  ['' @ timedelta_str a2 @ '']'';
                 del = \<lparr>http_method = ''DELETE'',
                        url = endpoint_of config @ py_str (name tag),
                        headers = auth_headers token\<rparr>;
                 m = length tags + 2 * length pre + 2
             in (\<not> truthy (purge config) \<longrightarrow>
                   requests tr' = [list_request (endpoint_of config) (auth_headers token)]
                 \<and> main strptime w =
                     report strptime w config (endpoint_of config) (auth_headers token) m
                       (tr' @ [Print (line @ newline)]) post)
              \<and> (truthy (purge config) \<longrightarrow>
                   (\<forall>b. urlopen w (requests tr') del = Response b \<longrightarrow>
                      main strptime w =
                        report strptime w config (endpoint_of config) (auth_headers token) m
                          (tr' @ [Print (line @ ''  ''), Urlopen del, Print (''deleted'' @ newline)])
                          post)
                 \<and> (\<forall>e. urlopen w (requests tr') del = Raises e \<longrightarrow>
                      main strptime w = (tr' @ [Print (line @ ''  ''), Urlopen del], Some e))))"
proof -
  let ?ep = "endpoint_of config" and ?h = "auth_headers token"
  let ?req = "list_request ?ep ?h"
  let ?n = "length tags + 2 * length pre"
  have "tag \<in> set tags"
    using expired_tags_set [OF assms(3)] by auto
  with expired_tags_parse [OF assms(3)] obtain d where
    d: "last_modified_datetime strptime tag = Inr d"
    by auto
  define a1 where "a1 = datetime_sub (replace_microsecond_0 (clock w ?n)) d"
  define a2 where "a2 = datetime_sub (replace_microsecond_0 (clock w (Suc ?n))) d"
  have a1: "Tag_age strptime (clock w ?n) tag = Inr a1"
    and a2: "Tag_age strptime (clock w (Suc ?n)) tag = Inr a2"
    by (simp_all add: a1_def a2_def Tag_age_Inr [OF d])
  have run: "main strptime w = report strptime w config ?ep ?h ?n tr' (tag # post)"
    by (simp add: main_eq_report [OF assms(1-3)] report_append assms(4))
  have line: "report_line config tag a1 a2 =
                py_str (repository config) @ '':'' @ py_str (name tag) @ ''  ''
                  @ show_int (int_of_float (total_seconds a1)) @ ''  ['' @ timedelta_str a2 @ '']''"
    by (simp add: report_line_def)
  have del: "delete_request ?ep ?h tag =
               \<lparr>http_method = ''DELETE'', url = ?ep @ py_str (name tag), headers = ?h\<rparr>"
    by (simp add: delete_request_def)
  have dry: "requests tr' = [?req]
           \<and> main strptime w = report strptime w config ?ep ?h (Suc (Suc ?n))
                (tr' @ [Print (report_line config tag a1 a2 @ newline)]) post"
    if np: "\<not> truthy (purge config)"
  proof -
    have "requests tr' = [?req]"
      using report_requests_no_purge [OF np, of strptime w ?ep ?h "length tags" "[Urlopen ?req]" pre]
      by (simp add: assms(4))
    then show ?thesis
      by (simp only: run report_step_no_purge [OF np a1 a2])
  qed
  have ok: "main strptime w = report strptime w config ?ep ?h (Suc (Suc ?n))
              (tr' @ [Print (report_line config tag a1 a2 @ ''  ''),
                      Urlopen (delete_request ?ep ?h tag), Print (''deleted'' @ newline)]) post"
    if "truthy (purge config)" and "urlopen w (requests tr') (delete_request ?ep ?h tag) = Response b" for b
    by (simp only: run report_step_deleted [OF that(1) a1 a2 that(2)])
  have fails: "main strptime w =
                 (tr' @ [Print (report_line config tag a1 a2 @ ''  ''),
                         Urlopen (delete_request ?ep ?h tag)], Some e)"
    if "truthy (purge config)" and "urlopen w (requests tr') (delete_request ?ep ?h tag) = Raises e" for e
    by (simp only: run report_step_delete_fails [OF that(1) a1 a2 that(2)])
  show ?thesis
    apply (rule exI [of _ a1], rule exI [of _ a2])
    using a1 a2 dry ok fails
    unfolding line del Let_def
    by simp
qed

text \<open>
  Claim C6: when the list request raises (an HTTP status outside 2xx, a network error),
  or its answer is not JSON, the run ends with that exception and its trace is the list
  request alone: nothing printed, no \<^verbatim>\<open>DELETE\<close>. When, with \<^verbatim>\<open>--purge\<close>, the
  deletions of the expired tags \<open>pre\<close> succeed and the deletion of the next one, \<open>tag\<close>,
  raises, the run ends with that exception, and the requests it issued are the list
  request, one \<^verbatim>\<open>DELETE\<close> for each tag of \<open>pre\<close> and one for \<open>tag\<close>: none is undone
  or repeated, and there is none for the remaining tags \<open>post\<close>. The failed request is
  the last event of the run.
\<close>

theorem failures_abort:
  assumes "configure w = Inr (config, token)"
  shows "(\<forall>e. urlopen w [] (list_request (endpoint_of config) (auth_headers token)) = Raises e
            \<longrightarrow> main strptime w
                = ([Urlopen (list_request (endpoint_of config) (auth_headers token))], Some e))
       \<and> (urlopen w [] (list_request (endpoint_of config) (auth_headers token)) = Response Malformed
            \<longrightarrow> main strptime w
                = ([Urlopen (list_request (endpoint_of config) (auth_headers token))],
                   Some JSONDecodeError))
       \<and> (\<forall>tags pre tag post e.
             list_tags w (list_request (endpoint_of config) (auth_headers token)) = Inr tags
           \<and> expired_tags strptime (clock w) config 0 tags = Inr (pre @ tag # post)
           \<and> truthy (purge config)
           \<and> (\<forall>k < length pre. \<exists>b.
                 urlopen w (list_request (endpoint_of config) (auth_headers token)
                            # map (delete_request (endpoint_of config) (auth_headers token)) (take k pre))
                   (delete_request (endpoint_of config) (auth_headers token) (pre ! k)) = Response b)
           \<and> urlopen w (list_request (endpoint_of config) (auth_headers token)
                        # map (delete_request (endpoint_of config) (auth_headers token)) pre)
                 (delete_request (endpoint_of config) (auth_headers token) tag) = Raises e
           \<longrightarrow> snd (main strptime w) = Some e
             \<and> requests (fst (main strptime w))
                 = list_request (endpoint_of config) (auth_headers token)
                   # map (delete_request (endpoint_of config) (auth_headers token)) (pre @ [tag])
             \<and> last (fst (main strptime w))
                 = Urlopen (delete_request (endpoint_of config) (auth_headers token) tag))"
proof (intro conjI allI impI)
  let ?ep = "endpoint_of config" and ?h = "auth_headers token"
  let ?req = "list_request ?ep ?h"
  {
    fix e assume "urlopen w [] ?req = Raises e"
    then show "main strptime w = ([Urlopen ?req], Some e)"
      using assms by (simp add: main_def Let_def list_tags_def)
  next
    assume "urlopen w [] ?req = Response Malformed"
    then show "main strptime w = ([Urlopen ?req], Some JSONDecodeError)"
      using assms by (simp add: main_def Let_def list_tags_def load_tags_def json_load_def)
  next
    fix tags pre tag post e
    assume h: "list_tags w ?req = Inr tags
           \<and> expired_tags strptime (clock w) config 0 tags = Inr (pre @ tag # post)
           \<and> truthy (purge config)
           \<and> (\<forall>k < length pre. \<exists>b.
                 urlopen w (?req # map (delete_request ?ep ?h) (take k pre))
                   (delete_request ?ep ?h (pre ! k)) = Response b)
           \<and> urlopen w (?req # map (delete_request ?ep ?h) pre)
                 (delete_request ?ep ?h tag) = Raises e"
    then have lst: "list_tags w ?req = Inr tags"
      and flt: "expired_tags strptime (clock w) config 0 tags = Inr (pre @ tag # post)"
      and purge: "truthy (purge config)"
      and oks: "\<forall>k < length pre. \<exists>b.
                 urlopen w (requests [Urlopen ?req] @ map (delete_request ?ep ?h) (take k pre))
                   (delete_request ?ep ?h (pre ! k)) = Response b"
      and bad: "urlopen w (?req # map (delete_request ?ep ?h) pre)
                 (delete_request ?ep ?h tag) = Raises e"
      by simp_all
    have parse: "\<forall>t \<in> set (pre @ tag # post). \<exists>d. last_modified_datetime strptime t = Inr d"
      using expired_tags_parse [OF flt] expired_tags_set [OF flt] by blast
    then have "\<forall>t \<in> set pre. \<exists>d. last_modified_datetime strptime t = Inr d"
      by simp
    from report_all_deleted [OF purge this oks] obtain tr' where
      pre: "report strptime w config ?ep ?h (length tags) [Urlopen ?req] pre = (tr', None)"
      by blast
    from report_ok_requests [OF purge pre] have reqs: "requests tr' = ?req # map (delete_request ?ep ?h) pre"
      by simp
    from parse obtain d where d: "last_modified_datetime strptime tag = Inr d"
      by auto
    have run: "main strptime w =
                 report strptime w config ?ep ?h (length tags + 2 * length pre) tr' (tag # post)"
      by (simp add: main_eq_report [OF assms lst flt] report_append pre)
    from bad reqs have bad': "urlopen w (requests tr') (delete_request ?ep ?h tag) = Raises e"
      by simp
    have "main strptime w =
            (tr' @ [Print (report_line config tag
                      (datetime_sub (replace_microsecond_0 (clock w (length tags + 2 * length pre))) d)
                      (datetime_sub (replace_microsecond_0 (clock w (Suc (length tags + 2 * length pre)))) d)
                     @ ''  ''),
                    Urlopen (delete_request ?ep ?h tag)], Some e)"
      by (simp only: run report_step_delete_fails [OF purge Tag_age_Inr [OF d] Tag_age_Inr [OF d] bad'])
    then show "snd (main strptime w) = Some e"
      and "requests (fst (main strptime w)) = ?req # map (delete_request ?ep ?h) (pre @ [tag])"
      and "last (fst (main strptime w)) = Urlopen (delete_request ?ep ?h tag)"
      by (simp_all add: requests_append reqs)
  }
qed

section \<open>Evaluating the examples\<close>

lemma total_seconds_whole:
  assumes "microseconds td = 0" and "\<bar>days td * 86400 + seconds td\<bar> < 2 ^ 53"
  shows "total_seconds td = of_int (days td * 86400 + seconds td)"
proof -
  have "(of_int (to_microseconds td) :: rat) / 1000000 = of_int (days td * 86400 + seconds td)"
    using assms(1) by (simp add: to_microseconds_def)
  then show ?thesis
    by (simp only: total_seconds_def round_double_of_int [OF assms(2)])
qed

lemmas eval_defs =
  main_def configure_def parse_args_def py_int_def strip_def is_space_def digits_def
  is_digit_def digit_val_def deserialize_Config kw_def example_world_def list_tags_def
  load_tags_def json_load_def subscript_def iterate_def example_listing_def example_tag_def
  deserialize_Tag Tag_age_def last_modified_datetime_def last_modified_format_def
  example_strptime_def example_dates_def example_instant_def example_now_def datetime_sub_def
  replace_microsecond_0_def timedelta_of_microseconds_def total_seconds_whole
  float_gt_def Let_def endpoint_of_def auth_headers_def list_request_def py_str_def
  report_line_def int_of_float_def show_int_def show_nat.simps digit_char_def
  timedelta_str_def zero_pad_def example_get_def newline_def delete_request_def
  example_config_def example_Tag_def example_tags_def example_delete_def ticking_def

section \<open>Concrete runs\<close>

text \<open>
  With \<^verbatim>\<open>age\<close> 3600 and the clock standing still, only \<^verbatim>\<open>v1\<close> (3610 seconds old) is
  expired; \<^verbatim>\<open>v3\<close>, exactly 3600 seconds old, is left out, and one line is printed.
\<close>

theorem expired_iff_older_than_age_witness:
  "expired_tags example_strptime (\<lambda>_. example_now) (example_config 3600 False) 0 example_tags
     = Inr [example_Tag ''v1'' ''Mon, 02 Jan 2006 15:03:55 +0000'']
   \<and> Tag_age example_strptime example_now (example_Tag ''v3'' ''Mon, 02 Jan 2006 15:04:05 +0000'')
     = Inr \<lparr>days = 0, seconds = 3600, microseconds = 0\<rparr>
   \<and> total_seconds \<lparr>days = 0, seconds = 3600, microseconds = 0\<rparr> = 3600
   \<and> (example_Tag ''v3'' ''Mon, 02 Jan 2006 15:04:05 +0000''
        \<in> set [example_Tag ''v1'' ''Mon, 02 Jan 2006 15:03:55 +0000''])
     = (\<exists>a. Tag_age example_strptime example_now
               (example_Tag ''v3'' ''Mon, 02 Jan 2006 15:04:05 +0000'') = Inr a
            \<and> of_int 3600 < total_seconds a)
   \<and> main example_strptime
       (example_world [Positional ''myrepo'', Positional ''3600''] (\<lambda>_. example_now)
          (Response (Json example_listing)) [])
     = ([Urlopen example_get, Print (''myrepo:v1  3610  [1:00:10]'' @ newline)], None)"
proof -
  let ?w = "example_world [Positional ''myrepo'', Positional ''3600''] (\<lambda>_. example_now)
              (Response (Json example_listing)) []"
  let ?cfg = "example_config 3600 False"
  let ?v1 = "example_Tag ''v1'' ''Mon, 02 Jan 2006 15:03:55 +0000''"
  let ?v3 = "example_Tag ''v3'' ''Mon, 02 Jan 2006 15:04:05 +0000''"
  have h1: "configure ?w = Inr (?cfg, ''secret'')"
    by (simp add: eval_defs)
  have h2: "list_tags ?w (list_request (endpoint_of ?cfg) (auth_headers ''secret'')) = Inr example_tags"
    by (simp add: eval_defs)
  have e1: "expired_tags example_strptime (\<lambda>_. example_now) ?cfg 0 example_tags = Inr [?v1]"
    by (simp add: eval_defs)
  then have h3: "expired_tags example_strptime (clock ?w) ?cfg 0 example_tags = Inr [?v1]"
    by (simp add: example_world_def)
  have clk: "\<forall>i. clock ?w i = example_now"
    by (simp add: example_world_def)
  have mem: "?v3 \<in> set example_tags"
    by (simp add: example_tags_def)
  from expired_iff_older_than_age [OF h1 h2 h3, of example_now] obtain c where
    c: "age ?cfg = PInt c"
    and fixed: "(\<forall>i. clock ?w i = example_now) \<longrightarrow>
                (\<forall>t \<in> set example_tags. (t \<in> set [?v1]) =
                   (\<exists>a. Tag_age example_strptime example_now t = Inr a \<and> of_int c < total_seconds a))"
    by blast
  from c have "c = 3600"
    by (simp add: example_config_def)
  with fixed clk mem
  have iff: "(?v3 \<in> set [?v1])
     = (\<exists>a. Tag_age example_strptime example_now ?v3 = Inr a \<and> of_int 3600 < total_seconds a)"
    by blast
  have e2: "Tag_age example_strptime example_now ?v3 = Inr \<lparr>days = 0, seconds = 3600, microseconds = 0\<rparr>"
    by (simp add: eval_defs)
  have e3: "total_seconds \<lparr>days = 0, seconds = 3600, microseconds = 0\<rparr> = 3600"
    by (simp add: eval_defs)
  have e4: "main example_strptime ?w
     = ([Urlopen example_get, Print (''myrepo:v1  3610  [1:00:10]'' @ newline)], None)"
    by (simp add: eval_defs)
  from e1 e2 e3 iff e4 show ?thesis
    by (intro conjI)
qed

text \<open>
  With \<^verbatim>\<open>age\<close> 3000 and the advancing clock, \<^verbatim>\<open>v1\<close> and \<^verbatim>\<open>v3\<close> are expired, in
  the order of the listing, and each has its line; the two ages of a line are read one
  second apart.
\<close>

theorem expired_tags_in_order_one_line_each_witness:
  "expired_tags example_strptime ticking (example_config 3000 False) 0 example_tags
     = Inr [example_Tag ''v1'' ''Mon, 02 Jan 2006 15:03:55 +0000'',
            example_Tag ''v3'' ''Mon, 02 Jan 2006 15:04:05 +0000'']
   \<and> subseq [example_Tag ''v1'' ''Mon, 02 Jan 2006 15:03:55 +0000'',
              example_Tag ''v3'' ''Mon, 02 Jan 2006 15:04:05 +0000''] example_tags
   \<and> main example_strptime
       (example_world [Positional ''myrepo'', Positional ''3000''] ticking
          (Response (Json example_listing)) [])
     = ([Urlopen example_get,
         Print (''myrepo:v1  3614  [1:00:15]'' @ newline),
         Print (''myrepo:v3  3606  [1:00:07]'' @ newline)], None)"
proof -
  let ?w = "example_world [Positional ''myrepo'', Positional ''3000''] ticking
              (Response (Json example_listing)) []"
  let ?cfg = "example_config 3000 False"
  let ?v1 = "example_Tag ''v1'' ''Mon, 02 Jan 2006 15:03:55 +0000''"
  let ?v3 = "example_Tag ''v3'' ''Mon, 02 Jan 2006 15:04:05 +0000''"
  let ?tr = "[Urlopen example_get,
         Print (''myrepo:v1  3614  [1:00:15]'' @ newline),
         Print (''myrepo:v3  3606  [1:00:07]'' @ newline)]"
  have h1: "configure ?w = Inr (?cfg, ''secret'')"
    by (simp add: eval_defs)
  have h2: "list_tags ?w (list_request (endpoint_of ?cfg) (auth_headers ''secret'')) = Inr example_tags"
    by (simp add: eval_defs)
  have e1: "expired_tags example_strptime ticking ?cfg 0 example_tags = Inr [?v1, ?v3]"
    by (simp add: eval_defs)
  then have h3: "expired_tags example_strptime (clock ?w) ?cfg 0 example_tags = Inr [?v1, ?v3]"
    by (simp add: example_world_def)
  have h4: "main example_strptime ?w = (?tr, None)"
    by (simp add: eval_defs)
  from expired_tags_in_order_one_line_each [OF h1 h2 h3 h4]
  have sub: "subseq [?v1, ?v3] example_tags"
    by blast
  from e1 sub h4 show ?thesis
    by (intro conjI)
qed

text \<open>
  Claim C3, as the specification words it, has every fetched tag selected when
  \<^verbatim>\<open>config.age\<close> is negative. With \<^verbatim>\<open>age\<close> \<open>-5\<close> the tag \<^verbatim>\<open>v4\<close>, last modified 10
  seconds after the reading of the clock, has the age \<open>-10\<close> seconds, which is not greater
  than \<open>-5\<close>: it is fetched and not selected, and the run prints three lines for four tags.
\<close>

theorem negative_age_future_tag_counterexample:
  "configure (example_world [Positional ''myrepo'', Positional ''-5''] (\<lambda>_. example_now)
                (Response (Json example_listing)) [])
     = Inr (example_config (- 5) False, ''secret'')
   \<and> list_tags (example_world [Positional ''myrepo'', Positional ''-5''] (\<lambda>_. example_now)
                  (Response (Json example_listing)) []) example_get
     = Inr example_tags
   \<and> Tag_age example_strptime example_now (example_Tag ''v4'' ''Mon, 02 Jan 2006 16:04:15 +0000'')
     = Inr \<lparr>days = - 1, seconds = 86390, microseconds = 0\<rparr>
   \<and> total_seconds \<lparr>days = - 1, seconds = 86390, microseconds = 0\<rparr> = - 10
   \<and> expired_tags example_strptime (\<lambda>_. example_now) (example_config (- 5) False) 0 example_tags
     = Inr [example_Tag ''v1'' ''Mon, 02 Jan 2006 15:03:55 +0000'',
            example_Tag ''v2'' ''Mon, 02 Jan 2006 16:34:05 +0100'',
            example_Tag ''v3'' ''Mon, 02 Jan 2006 15:04:05 +0000'']
   \<and> expired_tags example_strptime (\<lambda>_. example_now) (example_config (- 5) False) 0 example_tags
     \<noteq> Inr example_tags
   \<and> main example_strptime
       (example_world [Positional ''myrepo'', Positional ''-5''] (\<lambda>_. example_now)
          (Response (Json example_listing)) [])
     = ([Urlopen example_get,
         Print (''myrepo:v1  3610  [1:00:10]'' @ newline),
         Print (''myrepo:v2  1800  [0:30:00]'' @ newline),
         Print (''myrepo:v3  3600  [1:00:00]'' @ newline)], None)"
  by (simp add: eval_defs)

text \<open>
  The argument \<^verbatim>\<open>-5\<close> is accepted. Of the four fetched tags the three of the past are
  selected, \<^verbatim>\<open>v2\<close> among them; \<^verbatim>\<open>v4\<close>, whose age is \<open>-10\<close> seconds, is selected if
  and only if \<open>-5 < -10\<close>, and so it is not.
\<close>

theorem negative_age_selects_nonnegative_ages_witness:
  "configure (example_world [Positional ''myrepo'', Positional ''-5''] (\<lambda>_. example_now)
                (Response (Json example_listing)) [])
     = Inr (\<lparr>repository = PStr ''myrepo'', age = PInt (- 5), purge = PBool False\<rparr>, ''secret'')
   \<and> expired_tags example_strptime (\<lambda>_. example_now) (example_config (- 5) False) 0 example_tags
     = Inr [example_Tag ''v1'' ''Mon, 02 Jan 2006 15:03:55 +0000'',
            example_Tag ''v2'' ''Mon, 02 Jan 2006 16:34:05 +0100'',
            example_Tag ''v3'' ''Mon, 02 Jan 2006 15:04:05 +0000'']
   \<and> example_Tag ''v2'' ''Mon, 02 Jan 2006 16:34:05 +0100''
       \<in> set [example_Tag ''v1'' ''Mon, 02 Jan 2006 15:03:55 +0000'',
              example_Tag ''v2'' ''Mon, 02 Jan 2006 16:34:05 +0100'',
              example_Tag ''v3'' ''Mon, 02 Jan 2006 15:04:05 +0000'']
   \<and> (example_Tag ''v4'' ''Mon, 02 Jan 2006 16:04:15 +0000''
        \<in> set [example_Tag ''v1'' ''Mon, 02 Jan 2006 15:03:55 +0000'',
               example_Tag ''v2'' ''Mon, 02 Jan 2006 16:34:05 +0100'',
               example_Tag ''v3'' ''Mon, 02 Jan 2006 15:04:05 +0000''])
     = (of_int (- 5) < total_seconds \<lparr>days = - 1, seconds = 86390, microseconds = 0\<rparr>)
   \<and> total_seconds \<lparr>days = - 1, seconds = 86390, microseconds = 0\<rparr> = - 10"
proof -
  let ?w = "example_world [Positional ''myrepo'', Positional ''-5''] (\<lambda>_. example_now)
                (Response (Json example_listing)) []"
  let ?cfg = "example_config (- 5) False"
  let ?v1 = "example_Tag ''v1'' ''Mon, 02 Jan 2006 15:03:55 +0000''"
  let ?v2 = "example_Tag ''v2'' ''Mon, 02 Jan 2006 16:34:05 +0100''"
  let ?v3 = "example_Tag ''v3'' ''Mon, 02 Jan 2006 15:04:05 +0000''"
  let ?v4 = "example_Tag ''v4'' ''Mon, 02 Jan 2006 16:04:15 +0000''"
  note inst = negative_age_selects_nonnegative_ages
    [of ?w "''myrepo''" "''-5''" "- 5" "''secret''" example_strptime "\<lambda>_. example_now" ?cfg 0
        example_tags "[?v1, ?v2, ?v3]" example_now]
  have accepted: "positionals (argv ?w) = [''myrepo'', ''-5''] \<and> py_int ''-5'' = Some (- 5)
      \<and> \<not> list_ex is_Unrecognized (argv ?w) \<and> environ ?w ''QUAY_TOKEN'' = Some ''secret''"
    by (simp add: eval_defs)
  have flag: "Purge_flag \<notin> set (argv ?w)"
    by (simp add: example_world_def)
  from inst accepted flag
  have cfg: "configure ?w
     = Inr (\<lparr>repository = PStr ''myrepo'', age = PInt (- 5), purge = PBool False\<rparr>, ''secret'')"
    by simp
  have run: "expired_tags example_strptime (\<lambda>_. example_now) ?cfg 0 example_tags
               = Inr [?v1, ?v2, ?v3]"
    by (simp add: eval_defs)
  have hyp: "expired_tags example_strptime (\<lambda>_. example_now) ?cfg 0 example_tags
               = Inr [?v1, ?v2, ?v3] \<and> age ?cfg = PInt (- 5) \<and> (- 5 :: int) < 0"
    using run by (simp add: example_config_def)
  from inst hyp
  have each: "\<forall>t \<in> set example_tags. \<forall>d. last_modified_datetime example_strptime t = Inr d \<longrightarrow>
                 (d \<le> replace_microsecond_0 example_now \<longrightarrow> t \<in> set [?v1, ?v2, ?v3])
               \<and> (replace_microsecond_0 example_now < d \<longrightarrow>
                    (t \<in> set [?v1, ?v2, ?v3])
                    = (of_int (- 5) < total_seconds (datetime_sub (replace_microsecond_0 example_now) d)))"
    by blast
  have m2: "?v2 \<in> set example_tags" and m4: "?v4 \<in> set example_tags"
    by (simp_all add: example_tags_def)
  have d2: "last_modified_datetime example_strptime ?v2 = Inr (example_instant + 1800000000)"
    and d4: "last_modified_datetime example_strptime ?v4 = Inr (example_instant + 3610000000)"
    by (simp_all add: eval_defs)
  have past: "example_instant + 1800000000 \<le> replace_microsecond_0 example_now"
    and future: "replace_microsecond_0 example_now < example_instant + 3610000000"
    by (simp_all add: eval_defs)
  have sub: "datetime_sub (replace_microsecond_0 example_now) (example_instant + 3610000000)
               = \<lparr>days = - 1, seconds = 86390, microseconds = 0\<rparr>"
    by (simp add: eval_defs)
  from each m2 d2 past have r2: "?v2 \<in> set [?v1, ?v2, ?v3]"
    by blast
  from each m4 d4 future
  have r4: "(?v4 \<in> set [?v1, ?v2, ?v3])
     = (of_int (- 5) < total_seconds (datetime_sub (replace_microsecond_0 example_now)
                                        (example_instant + 3610000000)))"
    by blast
  have ts: "total_seconds \<lparr>days = - 1, seconds = 86390, microseconds = 0\<rparr> = - 10"
    by (simp add: eval_defs)
  from cfg run r2 r4 [unfolded sub] ts show ?thesis
    by (intro conjI)
qed

text \<open>
  A command line without \<^verbatim>\<open>age\<close>, one whose \<^verbatim>\<open>age\<close> is the word \<^verbatim>\<open>soon\<close>, and an
  environment without \<^verbatim>\<open>QUAY_TOKEN\<close>: each run ends with an empty trace.
\<close>

theorem configuration_errors_before_network_witness:
  "main example_strptime
     (example_world [Positional ''myrepo''] ticking (Response (Json example_listing)) [])
     = ([], Some (SystemExit 2))
   \<and> main example_strptime
     (example_world [Purge_flag, Positional ''myrepo'', Positional ''soon''] ticking
        (Response (Json example_listing)) [])
     = ([], Some (SystemExit 2))
   \<and> main example_strptime
     ((example_world [Positional ''myrepo'', Positional ''3600''] ticking
        (Response (Json example_listing)) []) \<lparr>environ := Map.empty\<rparr>)
     = ([], Some (KeyError ''QUAY_TOKEN''))"
proof -
  let ?w1 = "example_world [Positional ''myrepo''] ticking (Response (Json example_listing)) []"
  let ?w2 = "example_world [Purge_flag, Positional ''myrepo'', Positional ''soon''] ticking
        (Response (Json example_listing)) []"
  let ?w3 = "(example_world [Positional ''myrepo'', Positional ''3600''] ticking
        (Response (Json example_listing)) []) \<lparr>environ := Map.empty\<rparr>"
  have a1: "length (positionals (argv ?w1)) < 2"
    by (simp add: example_world_def)
  have a2: "positionals (argv ?w2) = [''myrepo'', ''soon''] \<and> py_int ''soon'' = None"
    by (simp add: eval_defs)
  have a3: "parse_args (argv ?w3)
              = Inr (PDict [(''repository'', PStr ''myrepo''), (''age'', PInt 3600),
                            (''purge'', PBool False)])
            \<and> environ ?w3 ''QUAY_TOKEN'' = None"
    by (simp add: eval_defs)
  from configuration_errors_before_network [of ?w1 example_strptime] a1
  have r1: "main example_strptime ?w1 = ([], Some (SystemExit 2))"
    by blast
  from configuration_errors_before_network [of ?w2 example_strptime] a2
  have r2: "main example_strptime ?w2 = ([], Some (SystemExit 2))"
    by blast
  from configuration_errors_before_network [of ?w3 example_strptime] a3
  have r3: "main example_strptime ?w3 = ([], Some (KeyError ''QUAY_TOKEN''))"
    by blast
  from r1 r2 r3 show ?thesis
    by (intro conjI)
qed

text \<open>
  A dry run in a world whose network fails after the first request is the same run as in
  the example world, and it issues the list request only.
\<close>

theorem dry_run_is_pure_and_repeatable_witness:
  "main example_strptime
     ((example_world [Positional ''myrepo'', Positional ''3000''] ticking
        (Response (Json example_listing)) [])
      \<lparr>urlopen := (\<lambda>rs r. if rs \<noteq> [] then Raises URLError
                           else if http_method r = ''GET'' then Response (Json example_listing)
                           else Response Malformed)\<rparr>)
   = main example_strptime
      (example_world [Positional ''myrepo'', Positional ''3000''] ticking
        (Response (Json example_listing)) [])
   \<and> requests (fst (main example_strptime
      (example_world [Positional ''myrepo'', Positional ''3000''] ticking
        (Response (Json example_listing)) []))) = [example_get]
   \<and> length (requests (fst (main example_strptime
      (example_world [Positional ''myrepo'', Positional ''3000''] ticking
        (Response (Json example_listing)) [])))) \<le> 1"
proof -
  let ?w = "example_world [Positional ''myrepo'', Positional ''3000''] ticking
        (Response (Json example_listing)) []"
  let ?w' = "?w \<lparr>urlopen := (\<lambda>rs r. if rs \<noteq> [] then Raises URLError
                           else if http_method r = ''GET'' then Response (Json example_listing)
                           else Response Malformed)\<rparr>"
  have dry: "Purge_flag \<notin> set (argv ?w)"
    by (simp add: example_world_def)
  have same: "argv ?w' = argv ?w \<and> environ ?w' ''QUAY_TOKEN'' = environ ?w ''QUAY_TOKEN''
              \<and> clock ?w' = clock ?w"
    by simp
  have first: "urlopen ?w' [] = urlopen ?w []"
    by (simp add: example_world_def fun_eq_iff)
  have run: "requests (fst (main example_strptime ?w)) = [example_get]"
    by (simp add: eval_defs)
  from dry_run_is_pure_and_repeatable [OF dry, of example_strptime ?w'] same first run
  show ?thesis
    by simp
qed

text \<open>
  A list request answered with status 401, one answered with a body that is not JSON, and
  a purge whose second deletion (of \<^verbatim>\<open>v2\<close>) fails with status 500: the third expired
  tag, \<^verbatim>\<open>v3\<close>, is never requested.
\<close>

theorem failures_abort_witness:
  "main example_strptime
     (example_world [Positional ''myrepo'', Positional ''1000'', Purge_flag] ticking
        (Raises (HTTPError 401)) [])
     = ([Urlopen example_get], Some (HTTPError 401))
   \<and> main example_strptime
     (example_world [Positional ''myrepo'', Positional ''1000'', Purge_flag] ticking
        (Response Malformed) [])
     = ([Urlopen example_get], Some JSONDecodeError)
   \<and> snd (main example_strptime
     (example_world [Positional ''myrepo'', Positional ''1000'', Purge_flag] ticking
        (Response (Json example_listing)) [''https://quay.io/api/v1/repository/myrepo/tag/v2'']))
     = Some (HTTPError 500)
   \<and> requests (fst (main example_strptime
     (example_world [Positional ''myrepo'', Positional ''1000'', Purge_flag] ticking
        (Response (Json example_listing)) [''https://quay.io/api/v1/repository/myrepo/tag/v2''])))
     = [example_get, example_delete ''v1'', example_delete ''v2'']"
proof -
  let ?args = "[Positional ''myrepo'', Positional ''1000'', Purge_flag]"
  let ?cfg = "example_config 1000 True"
  let ?ep = "endpoint_of ?cfg" and ?h = "auth_headers ''secret''"
  let ?w1 = "example_world ?args ticking (Raises (HTTPError 401)) []"
  let ?w2 = "example_world ?args ticking (Response Malformed) []"
  let ?w3 = "example_world ?args ticking (Response (Json example_listing))
               [''https://quay.io/api/v1/repository/myrepo/tag/v2'']"
  let ?v1 = "example_Tag ''v1'' ''Mon, 02 Jan 2006 15:03:55 +0000''"
  let ?v2 = "example_Tag ''v2'' ''Mon, 02 Jan 2006 16:34:05 +0100''"
  let ?v3 = "example_Tag ''v3'' ''Mon, 02 Jan 2006 15:04:05 +0000''"
  have c1: "configure ?w1 = Inr (?cfg, ''secret'')"
    and c2: "configure ?w2 = Inr (?cfg, ''secret'')"
    and c3: "configure ?w3 = Inr (?cfg, ''secret'')"
    by (simp_all add: eval_defs)
  have req: "list_request ?ep ?h = example_get"
    by (simp add: eval_defs)
  have d1: "delete_request ?ep ?h ?v1 = example_delete ''v1''"
    and d2: "delete_request ?ep ?h ?v2 = example_delete ''v2''"
    by (simp_all add: eval_defs)
  have u1: "urlopen ?w1 [] (list_request ?ep ?h) = Raises (HTTPError 401)"
    by (simp add: eval_defs)
  have u2: "urlopen ?w2 [] (list_request ?ep ?h) = Response Malformed"
    by (simp add: eval_defs)
  have r1: "main example_strptime ?w1 = ([Urlopen example_get], Some (HTTPError 401))"
    using failures_abort [OF c1, of example_strptime] u1 unfolding req by blast
  have r2: "main example_strptime ?w2 = ([Urlopen example_get], Some JSONDecodeError)"
    using failures_abort [OF c2, of example_strptime] u2 unfolding req by blast
  have l3: "list_tags ?w3 (list_request ?ep ?h) = Inr example_tags"
    by (simp add: eval_defs)
  have e3: "expired_tags example_strptime (clock ?w3) ?cfg 0 example_tags = Inr ([?v1] @ ?v2 # [?v3])"
    by (simp add: eval_defs)
  have p3: "truthy (purge ?cfg)"
    by (simp add: example_config_def)
  have ok3: "\<forall>k < length [?v1]. \<exists>b.
                 urlopen ?w3 (list_request ?ep ?h # map (delete_request ?ep ?h) (take k [?v1]))
                   (delete_request ?ep ?h ([?v1] ! k)) = Response b"
    by (simp add: eval_defs)
  have bad3: "urlopen ?w3 (list_request ?ep ?h # map (delete_request ?ep ?h) [?v1])
                 (delete_request ?ep ?h ?v2) = Raises (HTTPError 500)"
    by (simp add: eval_defs)
  from failures_abort [OF c3, of example_strptime] l3 e3 p3 ok3 bad3
  have "snd (main example_strptime ?w3) = Some (HTTPError 500)
      \<and> requests (fst (main example_strptime ?w3))
          = list_request ?ep ?h # map (delete_request ?ep ?h) ([?v1] @ [?v2])"
    by blast
  then have r3: "snd (main example_strptime ?w3) = Some (HTTPError 500)"
    and r4: "requests (fst (main example_strptime ?w3))
               = [example_get, example_delete ''v1'', example_delete ''v2'']"
    by (simp_all add: req d1 d2)
  from r1 r2 r3 r4 show ?thesis
    by (intro conjI)
qed

lemmas line_defs =
  py_str_def example_config_def example_Tag_def int_of_float_def total_seconds_whole
  show_int_def show_nat.simps digit_char_def timedelta_str_def zero_pad_def endpoint_of_def
  auth_headers_def example_delete_def example_get_def newline_def list_request_def

text \<open>
  The tag \<^verbatim>\<open>v3\<close>, reached after \<^verbatim>\<open>v1\<close>, in a dry run, in a purge that succeeds and
  in a purge whose deletion of \<^verbatim>\<open>v3\<close> fails.
\<close>

theorem report_line_then_delete_witness:
  "main example_strptime
     (example_world [Positional ''myrepo'', Positional ''3000''] ticking
        (Response (Json example_listing)) [])
     = ([Urlopen example_get,
         Print (''myrepo:v1  3614  [1:00:15]'' @ newline),
         Print (''myrepo:v3  3606  [1:00:07]'' @ newline)], None)
   \<and> main example_strptime
     (example_world [Positional ''myrepo'', Positional ''3000'', Purge_flag] ticking
        (Response (Json example_listing)) [])
     = ([Urlopen example_get,
         Print ''myrepo:v1  3614  [1:00:15]  '', Urlopen (example_delete ''v1''),
         Print (''deleted'' @ newline),
         Print ''myrepo:v3  3606  [1:00:07]  '', Urlopen (example_delete ''v3''),
         Print (''deleted'' @ newline)], None)
   \<and> main example_strptime
     (example_world [Positional ''myrepo'', Positional ''3000'', Purge_flag] ticking
        (Response (Json example_listing)) [''https://quay.io/api/v1/repository/myrepo/tag/v3''])
     = ([Urlopen example_get,
         Print ''myrepo:v1  3614  [1:00:15]  '', Urlopen (example_delete ''v1''),
         Print (''deleted'' @ newline),
         Print ''myrepo:v3  3606  [1:00:07]  '', Urlopen (example_delete ''v3'')],
        Some (HTTPError 500))"
proof (intro conjI)
  let ?v1 = "example_Tag ''v1'' ''Mon, 02 Jan 2006 15:03:55 +0000''"
  let ?v3 = "example_Tag ''v3'' ''Mon, 02 Jan 2006 15:04:05 +0000''"
  let ?h = "auth_headers ''secret''"
  let ?line = "\<lambda>cfg a1 a2. py_str (repository cfg) @ '':'' @ py_str (name ?v3) @ ''  ''
                         @ show_int (int_of_float (total_seconds a1))
                         @ ''  ['' @ timedelta_str a2 @ '']''"
  let ?del = "\<lambda>cfg. \<lparr>http_method = ''DELETE'', url = endpoint_of cfg @ py_str (name ?v3),
                       headers = ?h\<rparr>"
  let ?dry = "example_config 3000 False" and ?cfg = "example_config 3000 True"
  let ?tr = "[Urlopen example_get, Print ''myrepo:v1  3614  [1:00:15]  '',
                Urlopen (example_delete ''v1''), Print (''deleted'' @ newline)]"
  {
    let ?w = "example_world [Positional ''myrepo'', Positional ''3000''] ticking
                (Response (Json example_listing)) []"
    let ?tr0 = "[Urlopen example_get, Print (''myrepo:v1  3614  [1:00:15]'' @ newline)]"
    have h1: "configure ?w = Inr (?dry, ''secret'')"
      by (simp add: eval_defs)
    have h2: "list_tags ?w (list_request (endpoint_of ?dry) ?h) = Inr example_tags"
      by (simp add: eval_defs)
    have h3: "expired_tags example_strptime (clock ?w) ?dry 0 example_tags = Inr ([?v1] @ ?v3 # [])"
      by (simp add: eval_defs)
    have h4: "report example_strptime ?w ?dry (endpoint_of ?dry) ?h (length example_tags)
                [Urlopen (list_request (endpoint_of ?dry) ?h)] [?v1] = (?tr0, None)"
      by (simp add: eval_defs)
    have np: "\<not> truthy (purge ?dry)"
      by (simp add: example_config_def)
    from report_line_then_delete [OF h1 h2 h3 h4] obtain a1 a2 where
      a1: "Tag_age example_strptime (clock ?w (length example_tags + 2 * length [?v1])) ?v3 = Inr a1"
      and a2: "Tag_age example_strptime (clock ?w (length example_tags + 2 * length [?v1] + 1)) ?v3 = Inr a2"
      and run: "\<not> truthy (purge ?dry) \<longrightarrow>
                main example_strptime ?w =
                  report example_strptime ?w ?dry (endpoint_of ?dry) ?h
                    (length example_tags + 2 * length [?v1] + 2)
                    (?tr0 @ [Print (?line ?dry a1 a2 @ newline)]) []"
      unfolding Let_def by blast
    from a1 have a1': "a1 = \<lparr>days = 0, seconds = 3606, microseconds = 0\<rparr>"
      by (simp add: eval_defs)
    from a2 have a2': "a2 = \<lparr>days = 0, seconds = 3607, microseconds = 0\<rparr>"
      by (simp add: eval_defs)
    from run np have "main example_strptime ?w = (?tr0 @ [Print (?line ?dry a1 a2 @ newline)], None)"
      by simp
    then show "main example_strptime ?w
     = ([Urlopen example_get,
         Print (''myrepo:v1  3614  [1:00:15]'' @ newline),
         Print (''myrepo:v3  3606  [1:00:07]'' @ newline)], None)"
      unfolding a1' a2' by (simp add: line_defs)
  next
    let ?w = "example_world [Positional ''myrepo'', Positional ''3000'', Purge_flag] ticking
                (Response (Json example_listing)) []"
    have h1: "configure ?w = Inr (?cfg, ''secret'')"
      by (simp add: eval_defs)
    have h2: "list_tags ?w (list_request (endpoint_of ?cfg) ?h) = Inr example_tags"
      by (simp add: eval_defs)
    have h3: "expired_tags example_strptime (clock ?w) ?cfg 0 example_tags = Inr ([?v1] @ ?v3 # [])"
      by (simp add: eval_defs)
    have h4: "report example_strptime ?w ?cfg (endpoint_of ?cfg) ?h (length example_tags)
                [Urlopen (list_request (endpoint_of ?cfg) ?h)] [?v1] = (?tr, None)"
      by (simp add: eval_defs)
    have p: "truthy (purge ?cfg)"
      by (simp add: example_config_def)
    have u: "urlopen ?w (requests ?tr) (?del ?cfg) = Response Malformed"
      by (simp add: eval_defs)
    from report_line_then_delete [OF h1 h2 h3 h4] obtain a1 a2 where
      a1: "Tag_age example_strptime (clock ?w (length example_tags + 2 * length [?v1])) ?v3 = Inr a1"
      and a2: "Tag_age example_strptime (clock ?w (length example_tags + 2 * length [?v1] + 1)) ?v3 = Inr a2"
      and run: "truthy (purge ?cfg) \<longrightarrow>
                   (\<forall>b. urlopen ?w (requests ?tr) (?del ?cfg) = Response b \<longrightarrow>
                      main example_strptime ?w =
                        report example_strptime ?w ?cfg (endpoint_of ?cfg) ?h
                          (length example_tags + 2 * length [?v1] + 2)
                          (?tr @ [Print (?line ?cfg a1 a2 @ ''  ''), Urlopen (?del ?cfg),
                                  Print (''deleted'' @ newline)])
                          [])"
      unfolding Let_def by blast
    from a1 have a1': "a1 = \<lparr>days = 0, seconds = 3606, microseconds = 0\<rparr>"
      by (simp add: eval_defs)
    from a2 have a2': "a2 = \<lparr>days = 0, seconds = 3607, microseconds = 0\<rparr>"
      by (simp add: eval_defs)
    from run p u have "main example_strptime ?w =
        (?tr @ [Print (?line ?cfg a1 a2 @ ''  ''), Urlopen (?del ?cfg), Print (''deleted'' @ newline)], None)"
      by simp
    then show "main example_strptime ?w
     = ([Urlopen example_get,
         Print ''myrepo:v1  3614  [1:00:15]  '', Urlopen (example_delete ''v1''),
         Print (''deleted'' @ newline),
         Print ''myrepo:v3  3606  [1:00:07]  '', Urlopen (example_delete ''v3''),
         Print (''deleted'' @ newline)], None)"
      unfolding a1' a2' by (simp add: line_defs)
  next
    let ?w = "example_world [Positional ''myrepo'', Positional ''3000'', Purge_flag] ticking
                (Response (Json example_listing)) [''https://quay.io/api/v1/repository/myrepo/tag/v3'']"
    have h1: "configure ?w = Inr (?cfg, ''secret'')"
      by (simp add: eval_defs)
    have h2: "list_tags ?w (list_request (endpoint_of ?cfg) ?h) = Inr example_tags"
      by (simp add: eval_defs)
    have h3: "expired_tags example_strptime (clock ?w) ?cfg 0 example_tags = Inr ([?v1] @ ?v3 # [])"
      by (simp add: eval_defs)
    have h4: "report example_strptime ?w ?cfg (endpoint_of ?cfg) ?h (length example_tags)
                [Urlopen (list_request (endpoint_of ?cfg) ?h)] [?v1] = (?tr, None)"
      by (simp add: eval_defs)
    have p: "truthy (purge ?cfg)"
      by (simp add: example_config_def)
    have u: "urlopen ?w (requests ?tr) (?del ?cfg) = Raises (HTTPError 500)"
      by (simp add: eval_defs)
    from report_line_then_delete [OF h1 h2 h3 h4] obtain a1 a2 where
      a1: "Tag_age example_strptime (clock ?w (length example_tags + 2 * length [?v1])) ?v3 = Inr a1"
      and a2: "Tag_age example_strptime (clock ?w (length example_tags + 2 * length [?v1] + 1)) ?v3 = Inr a2"
      and run: "truthy (purge ?cfg) \<longrightarrow>
                   (\<forall>e. urlopen ?w (requests ?tr) (?del ?cfg) = Raises e \<longrightarrow>
                      main example_strptime ?w =
                        (?tr @ [Print (?line ?cfg a1 a2 @ ''  ''), Urlopen (?del ?cfg)], Some e))"
      unfolding Let_def by blast
    from a1 have a1': "a1 = \<lparr>days = 0, seconds = 3606, microseconds = 0\<rparr>"
      by (simp add: eval_defs)
    from a2 have a2': "a2 = \<lparr>days = 0, seconds = 3607, microseconds = 0\<rparr>"
      by (simp add: eval_defs)
    from run p u have "main example_strptime ?w =
        (?tr @ [Print (?line ?cfg a1 a2 @ ''  ''), Urlopen (?del ?cfg)], Some (HTTPError 500))"
      by simp
    then show "main example_strptime ?w
     = ([Urlopen example_get,
         Print ''myrepo:v1  3614  [1:00:15]  '', Urlopen (example_delete ''v1''),
         Print (''deleted'' @ newline),
         Print ''myrepo:v3  3606  [1:00:07]  '', Urlopen (example_delete ''v3'')],
        Some (HTTPError 500))"
      unfolding a1' a2' by (simp add: line_defs)
  }
qed

text \<open>
  Claim C10, as the specification words it, has the age a whole number of seconds for every
  \<^verbatim>\<open>last_modified\<close> that parses under the pattern. The directive \<^verbatim>\<open>%z\<close> accepts a UTC
  offset with a fraction of a second: the fifth example date parses, to an instant half a
  second before the first. Ten seconds after the first date the age of that tag is 10.5
  seconds, \<^verbatim>\<open>total_seconds()\<close> is 10.5, and the printed integer is 10: it is not the
  age.
\<close>

theorem age_fractional_offset_counterexample:
  "last_modified_datetime example_strptime
     (example_Tag ''v5'' ''Mon, 02 Jan 2006 15:04:05 +000000.5'')
     = Inr (example_instant - 500000)
   \<and> Tag_age example_strptime (example_instant + 10000123)
       (example_Tag ''v5'' ''Mon, 02 Jan 2006 15:04:05 +000000.5'')
     = Inr \<lparr>days = 0, seconds = 10, microseconds = 500000\<rparr>
   \<and> total_seconds \<lparr>days = 0, seconds = 10, microseconds = 500000\<rparr> = 21 / 2
   \<and> int_of_float (total_seconds \<lparr>days = 0, seconds = 10, microseconds = 500000\<rparr>) = 10
   \<and> report_line (example_config 0 False)
       (example_Tag ''v5'' ''Mon, 02 Jan 2006 15:04:05 +000000.5'')
       \<lparr>days = 0, seconds = 10, microseconds = 500000\<rparr>
       \<lparr>days = 0, seconds = 10, microseconds = 500000\<rparr>
     = ''myrepo:v5  10  [0:00:10.500000]''"
proof -
  let ?v5 = "example_Tag ''v5'' ''Mon, 02 Jan 2006 15:04:05 +000000.5''"
  let ?a = "\<lparr>days = 0, seconds = 10, microseconds = 500000\<rparr>"
  have p: "last_modified_datetime example_strptime ?v5 = Inr (example_instant - 500000)"
    by (simp add: eval_defs)
  have a: "Tag_age example_strptime (example_instant + 10000123) ?v5 = Inr ?a"
    by (simp add: eval_defs)
  have ts: "total_seconds ?a = 21 / 2"
    by code_simp
  have tr: "int_of_float (total_seconds ?a) = 10"
    by code_simp
  have ln: "report_line (example_config 0 False) ?v5 ?a ?a = ''myrepo:v5  10  [0:00:10.500000]''"
    unfolding report_line_def tr by (simp add: eval_defs)
  from p a ts tr ln show ?thesis
    by (intro conjI)
qed

end
